theory Spec2Isabelle
  imports Complex_Main
begin

section \<open>Data model (models/Case.ts)\<close>

text \<open>
  A \<open>Date\<close> is its epoch time in milliseconds. An optional field (\<open>field?: T\<close>) is a
  \<open>T option\<close>, \<open>None\<close> standing for \<open>undefined\<close>.

  The money fields of a case are JavaScript numbers, and the type of numbers is a
  parameter \<open>'n\<close> of the records. The service is given twice below. Over exact
  rationals (\<open>Case\<close>, \<open>State\<close>, \<open>recordPayment\<close>) it serves the properties that do not
  depend on how a sum is rounded. Over an arbitrary type of numbers with the operations
  of the platform as a parameter (\<open>recordPaymentN\<close>) it serves those that do: what holds
  for every such arithmetic holds for the IEEE doubles of the platform, rounding, the
  infinities and \<open>NaN\<close> included.
\<close>

type_synonym Date = int

datatype CaseStatus = ACTIVE | SETTLEMENT | LEGAL_ACTION | CLOSED | WRITTEN_OFF

datatype CasePriority = LOW | MEDIUM | HIGH | CRITICAL

text \<open>
  The fields \<open>id\<close> and \<open>notes\<close> of the source are \<open>idC\<close> and \<open>notesC\<close> here (\<open>id\<close> is
  the identity function of HOL and \<open>notes\<close> is a keyword).
\<close>

record 'n CaseOf =
  idC :: string
  debtorId :: string
  creditorId :: string
  originalDebt :: 'n
  currentDebt :: 'n
  paidAmount :: 'n
  interestAccrued :: 'n
  currency :: string
  status :: CaseStatus
  priority :: CasePriority
  assignedAgentId :: "string option"
  assignedTeam :: "string option"
  createdAt :: Date
  updatedAt :: Date
  lastContactAt :: "Date option"
  lastPaymentAt :: "Date option"
  nextActionAt :: "Date option"
  closedAt :: "Date option"
  source :: string
  externalRef :: "string option"
  tags :: "string list option"
  notesC :: "string option"

type_synonym Case = "rat CaseOf"



record CaseStatusResponse =
  respCaseId :: string
  respStatus :: CaseStatus
  respCanAcceptPayments :: bool
  respReason :: "string option"

record CaseHistoryEntry =
  entryId :: string
  entryCaseId :: string
  action :: string
  description :: string
  performedBy :: string
  performedAt :: Date
  metadata :: "string option"


section \<open>The environment and the state of the process\<close>

text \<open>
  What the code reads from outside is a parameter of the model. Every \<open>new Date()\<close>,
  \<open>Date.now()\<close> and \<open>uuidv4()\<close> whose value is stored or sent is one read of the
  environment: the \<open>n\<close>-th read of the process returns \<open>dateAt env n\<close> or
  \<open>uuidAt env n\<close>, and the state counts the reads made so far in \<open>tick\<close>. The two
  \<open>Date.now()\<close> reads of the consumer callback feed a log line only and are left out
  with the logging. \<open>numberToString\<close> is what a template literal prints for a number,
  \<open>fullYear\<close> the decimal rendering of \<open>getFullYear()\<close>, and \<open>publishThrows env n\<close>
  tells whether the body of the publisher's \<open>try\<close> block, entered at read \<open>n\<close>, throws
  (the channel is unavailable or the broker library raises).
\<close>

record Env =
  dateAt :: "nat \<Rightarrow> Date"
  uuidAt :: "nat \<Rightarrow> string"
  numberToString :: "rat \<Rightarrow> string"
  fullYear :: "Date \<Rightarrow> string"
  publishThrows :: "nat \<Rightarrow> bool"

text \<open>
  The module-level variables of CaseService.ts (\<open>cases\<close>, \<open>caseHistory\<close>,
  \<open>processedPayments\<close>) and the field \<open>processedEventIds\<close> of the consumer singleton.
  A JavaScript \<open>Map\<close> is a partial function. A JavaScript \<open>Set\<close> iterates in insertion
  order, and \<open>Array.from(set).slice(0, 5000)\<close> depends on that order, so a \<open>Set\<close> is the
  list of its members, oldest first.

  The \<open>Case\<close> objects live in the map \<open>cases\<close> and are mutated in place; a reference to
  the object of a case is its key, and reading a field through a reference reads the map
  at that key in the current state.
\<close>

record 'n StateOf =
  cases :: "string \<rightharpoonup> 'n CaseOf"
  caseHistory :: "string \<rightharpoonup> CaseHistoryEntry list"
  processedPayments :: "string list"
  processedEventIds :: "string list"
  tick :: nat

type_synonym State = "rat StateOf"

text \<open>
  The arithmetic of the platform on a type \<open>'n\<close> of numbers: \<open>numLit q\<close> is the number
  that the decimal literal \<open>q\<close> denotes, \<open>numAdd\<close> and \<open>numSub\<close> are \<open>+\<close> and \<open>-\<close>,
  \<open>numMax\<close> is \<open>Math.max\<close>, \<open>numLe\<close>, \<open>numGt\<close> and \<open>numEq\<close> are \<open><=\<close>, \<open>>\<close> and
  \<open>==\<close>, and \<open>numToString\<close> is what a template literal prints. Nothing is assumed of
  them. For doubles \<open>x == x\<close> is false exactly when \<open>x\<close> is \<open>NaN\<close>.
\<close>

record 'n Arith =
  numLit :: "rat \<Rightarrow> 'n"
  numAdd :: "'n \<Rightarrow> 'n \<Rightarrow> 'n"
  numSub :: "'n \<Rightarrow> 'n \<Rightarrow> 'n"
  numMax :: "'n \<Rightarrow> 'n \<Rightarrow> 'n"
  numLe :: "'n \<Rightarrow> 'n \<Rightarrow> bool"
  numGt :: "'n \<Rightarrow> 'n \<Rightarrow> bool"
  numEq :: "'n \<Rightarrow> 'n \<Rightarrow> bool"
  numToString :: "'n \<Rightarrow> string"

text \<open>
  Exact arithmetic on the rationals. It is the arithmetic of the doubles wherever no
  sum or difference is rounded, as on whole numbers below \<open>2^53\<close>.
\<close>

definition exactArith :: "(rat \<Rightarrow> string) \<Rightarrow> rat Arith" where
  "exactArith toStr =
     \<lparr>numLit = (\<lambda>q. q), numAdd = (\<lambda>a b. a + b), numSub = (\<lambda>a b. a - b),
      numMax = (\<lambda>a b. max a b), numLe = (\<lambda>a b. a \<le> b), numGt = (\<lambda>a b. a > b),
      numEq = (\<lambda>a b. a = b), numToString = toStr\<rparr>"

text \<open>
  An arithmetic with rounding and \<open>NaN\<close>, for examples: \<open>None\<close> is \<open>NaN\<close>, a finite
  number is its value, every literal, sum and difference is passed through \<open>rnd\<close>, and
  an operation on \<open>NaN\<close> gives \<open>NaN\<close> or false. With \<open>rnd\<close> the rounding to the nearest
  double this is the arithmetic of the platform on the numbers that are not infinite.
\<close>

definition roundedArith :: "(rat \<Rightarrow> rat) \<Rightarrow> (rat option \<Rightarrow> string) \<Rightarrow> rat option Arith" where
  "roundedArith rnd toStr =
     \<lparr>numLit = (\<lambda>q. Some (rnd q)),
      numAdd = (\<lambda>a b. case (a, b) of (Some x, Some y) \<Rightarrow> Some (rnd (x + y)) | _ \<Rightarrow> None),
      numSub = (\<lambda>a b. case (a, b) of (Some x, Some y) \<Rightarrow> Some (rnd (x - y)) | _ \<Rightarrow> None),
      numMax = (\<lambda>a b. case (a, b) of (Some x, Some y) \<Rightarrow> Some (max x y) | _ \<Rightarrow> None),
      numLe = (\<lambda>a b. case (a, b) of (Some x, Some y) \<Rightarrow> x \<le> y | _ \<Rightarrow> False),
      numGt = (\<lambda>a b. case (a, b) of (Some x, Some y) \<Rightarrow> x > y | _ \<Rightarrow> False),
      numEq = (\<lambda>a b. case (a, b) of (Some x, Some y) \<Rightarrow> x = y | _ \<Rightarrow> False),
      numToString = toStr\<rparr>"

subsection \<open>Set operations used by the code\<close>

definition setHas :: "string \<Rightarrow> string list \<Rightarrow> bool" where
  "setHas k xs = (k \<in> set xs)"

definition setAdd :: "string \<Rightarrow> string list \<Rightarrow> string list" where
  "setAdd k xs = (if k \<in> set xs then xs else xs @ [k])"

definition setDelete :: "string \<Rightarrow> string list \<Rightarrow> string list" where
  "setDelete k xs = removeAll k xs"

text \<open>
  \<^verbatim>\<open>if (set.size > 10000) {
    const oldest = Array.from(set).slice(0, 5000);
    oldest.forEach((key) => set.delete(key));
  }\<close>
\<close>

definition cleanup :: "string list \<Rightarrow> string list" where
  "cleanup xs =
     (if length xs > 10000
      then (let oldestKeys = take 5000 xs in fold setDelete oldestKeys xs)
      else xs)"

section \<open>CaseService.ts\<close>

definition getCaseById :: "string \<Rightarrow> 'n StateOf \<Rightarrow> 'n CaseOf option" where
  "getCaseById i s = cases s i"

definition canAcceptPayments :: "CaseStatus \<Rightarrow> bool" where
  "canAcceptPayments st = (st \<noteq> LEGAL_ACTION)"

definition getCaseStatus :: "string \<Rightarrow> 'n StateOf \<Rightarrow> CaseStatusResponse option" where
  "getCaseStatus i s =
     (case cases s i of
        None \<Rightarrow> None
      | Some caseData \<Rightarrow>
          (let can = canAcceptPayments (status caseData);
               reason =
                 (if \<not> can then
                    (if status caseData = LEGAL_ACTION
                     then Some ''Case is in legal action. Contact legal department.''
                     else if status caseData = CLOSED
                     then Some ''Case is closed. Payment may trigger review.''
                     else None)
                  else None)
           in Some \<lparr>respCaseId = i, respStatus = status caseData,
                     respCanAcceptPayments = can, respReason = reason\<rparr>))"

definition addHistoryEntry ::
  "Env \<Rightarrow> string \<Rightarrow> string \<Rightarrow> string \<Rightarrow> string \<Rightarrow> 'n StateOf \<Rightarrow> 'n StateOf" where
  "addHistoryEntry env caseId act descr actor s =
     (let history = (case caseHistory s caseId of Some h \<Rightarrow> h | None \<Rightarrow> []);
          entry = \<lparr>entryId = uuidAt env (tick s), entryCaseId = caseId, action = act,
                   description = descr, performedBy = actor,
                   performedAt = dateAt env (tick s + 1), metadata = None\<rparr>
      in s\<lparr>caseHistory := (caseHistory s)(caseId \<mapsto> history @ [entry]),
            tick := tick s + 2\<rparr>)"

text \<open>
  \<open>modifyCase\<close> is an assignment to fields of the object that \<open>cases\<close> holds for
  \<open>caseId\<close>.
\<close>

definition modifyCase ::
  "string \<Rightarrow> ('n CaseOf \<Rightarrow> 'n CaseOf) \<Rightarrow> 'n StateOf \<Rightarrow> 'n StateOf" where
  "modifyCase caseId f s =
     (case cases s caseId of
        None \<Rightarrow> s
      | Some c \<Rightarrow> s\<lparr>cases := (cases s)(caseId \<mapsto> f c)\<rparr>)"

definition idempotencyKey :: "string \<Rightarrow> string \<Rightarrow> string" where
  "idempotencyKey caseId paymentId = caseId @ '':'' @ paymentId"

text \<open>
  \<open>recordPayment\<close> returns the value of the case object at the time of the return
  (\<open>None\<close> for \<open>null\<close>) and the new state. Its body is the statements of the source in
  their order, the logging calls left out; three consecutive blocks of it have a name
  here: \<open>applyPaymentAmount\<close> (the four assignments after the idempotency check),
  \<open>autoClose\<close> (the block under "Auto-close if fully paid") and \<open>reopen\<close> (the block
  under "Reopen if written-off and payment received"). The final
  \<open>cases.set(caseId, caseData)\<close> stores the object the map already holds.
\<close>

definition applyPaymentAmount :: "Env \<Rightarrow> string \<Rightarrow> rat \<Rightarrow> State \<Rightarrow> State" where
  "applyPaymentAmount env caseId amount s =
     (let s1 = modifyCase caseId (\<lambda>c. c\<lparr>paidAmount := paidAmount c + amount\<rparr>) s;
          s2 = modifyCase caseId
                 (\<lambda>c. c\<lparr>currentDebt :=
                           max 0 (originalDebt c + interestAccrued c - paidAmount c)\<rparr>) s1;
          s3 = (modifyCase caseId (\<lambda>c. c\<lparr>lastPaymentAt := Some (dateAt env (tick s2))\<rparr>) s2)
                 \<lparr>tick := tick s2 + 1\<rparr>;
          s4 = (modifyCase caseId (\<lambda>c. c\<lparr>updatedAt := dateAt env (tick s3)\<rparr>) s3)
                 \<lparr>tick := tick s3 + 1\<rparr>
      in s4)"

definition autoClose :: "Env \<Rightarrow> string \<Rightarrow> State \<Rightarrow> State" where
  "autoClose env caseId s =
     (case cases s caseId of
        None \<Rightarrow> s
      | Some c \<Rightarrow>
          if currentDebt c \<le> 0 \<and> status c \<noteq> CLOSED then
            (let s1 = modifyCase caseId (\<lambda>c. c\<lparr>status := CLOSED\<rparr>) s;
                 s2 = (modifyCase caseId (\<lambda>c. c\<lparr>closedAt := Some (dateAt env (tick s1))\<rparr>) s1)
                        \<lparr>tick := tick s1 + 1\<rparr>
             in addHistoryEntry env caseId ''CASE_CLOSED''
                  ''Case auto-closed: debt fully paid'' ''system'' s2)
          else s)"

definition reopen :: "Env \<Rightarrow> string \<Rightarrow> rat \<Rightarrow> State \<Rightarrow> State" where
  "reopen env caseId amount s =
     (case cases s caseId of
        None \<Rightarrow> s
      | Some c \<Rightarrow>
          if status c = WRITTEN_OFF \<and> amount > 0 then
            (let s1 = modifyCase caseId (\<lambda>c. c\<lparr>status := ACTIVE\<rparr>) s
             in addHistoryEntry env caseId ''CASE_REOPENED''
                  ''Case reopened due to payment received after write-off'' ''system'' s1)
          else s)"

definition recordPayment ::
  "Env \<Rightarrow> string \<Rightarrow> string \<Rightarrow> rat \<Rightarrow> State \<Rightarrow> Case option \<times> State" where
  "recordPayment env caseId paymentId amount s =
     (case cases s caseId of
        None \<Rightarrow> (None, s)
      | Some caseData \<Rightarrow>
          if setHas (idempotencyKey caseId paymentId) (processedPayments s)
          then (Some caseData, s)
          else
            (let s1 = applyPaymentAmount env caseId amount s;
                 s2 = addHistoryEntry env caseId ''PAYMENT_RECEIVED''
                        (''Payment '' @ paymentId @ '' received: '' @ numberToString env amount
                           @ '' '' @ currency caseData)
                        ''payment-service'' s1;
                 s3 = autoClose env caseId s2;
                 s4 = reopen env caseId amount s3;
                 s5 = s4\<lparr>processedPayments :=
                           setAdd (idempotencyKey caseId paymentId) (processedPayments s4)\<rparr>;
                 s6 = s5\<lparr>processedPayments := cleanup (processedPayments s5)\<rparr>
             in (cases s6 caseId, s6)))"

text \<open>
  The same function over the numbers of an arithmetic \<open>ar\<close>: \<open>recordPaymentN\<close> and its
  three blocks are \<open>recordPayment\<close> and its blocks with \<open>+\<close>, \<open>-\<close>, \<open>Math.max\<close>, \<open><=\<close>,
  \<open>>\<close>, the literal \<open>0\<close> and the template literal taken from \<open>ar\<close>. The sum
  \<open>originalDebt + interestAccrued - paidAmount\<close> associates to the left.
\<close>

definition applyPaymentAmountN ::
  "'n Arith \<Rightarrow> Env \<Rightarrow> string \<Rightarrow> 'n \<Rightarrow> 'n StateOf \<Rightarrow> 'n StateOf" where
  "applyPaymentAmountN ar env caseId amount s =
     (let s1 = modifyCase caseId (\<lambda>c. c\<lparr>paidAmount := numAdd ar (paidAmount c) amount\<rparr>) s;
          s2 = modifyCase caseId
                 (\<lambda>c. c\<lparr>currentDebt :=
                           numMax ar (numLit ar 0)
                             (numSub ar (numAdd ar (originalDebt c) (interestAccrued c))
                                (paidAmount c))\<rparr>) s1;
          s3 = (modifyCase caseId (\<lambda>c. c\<lparr>lastPaymentAt := Some (dateAt env (tick s2))\<rparr>) s2)
                 \<lparr>tick := tick s2 + 1\<rparr>;
          s4 = (modifyCase caseId (\<lambda>c. c\<lparr>updatedAt := dateAt env (tick s3)\<rparr>) s3)
                 \<lparr>tick := tick s3 + 1\<rparr>
      in s4)"

definition autoCloseN :: "'n Arith \<Rightarrow> Env \<Rightarrow> string \<Rightarrow> 'n StateOf \<Rightarrow> 'n StateOf" where
  "autoCloseN ar env caseId s =
     (case cases s caseId of
        None \<Rightarrow> s
      | Some c \<Rightarrow>
          if numLe ar (currentDebt c) (numLit ar 0) \<and> status c \<noteq> CLOSED then
            (let s1 = modifyCase caseId (\<lambda>c. c\<lparr>status := CLOSED\<rparr>) s;
                 s2 = (modifyCase caseId (\<lambda>c. c\<lparr>closedAt := Some (dateAt env (tick s1))\<rparr>) s1)
                        \<lparr>tick := tick s1 + 1\<rparr>
             in addHistoryEntry env caseId ''CASE_CLOSED''
                  ''Case auto-closed: debt fully paid'' ''system'' s2)
          else s)"

definition reopenN :: "'n Arith \<Rightarrow> Env \<Rightarrow> string \<Rightarrow> 'n \<Rightarrow> 'n StateOf \<Rightarrow> 'n StateOf" where
  "reopenN ar env caseId amount s =
     (case cases s caseId of
        None \<Rightarrow> s
      | Some c \<Rightarrow>
          if status c = WRITTEN_OFF \<and> numGt ar amount (numLit ar 0) then
            (let s1 = modifyCase caseId (\<lambda>c. c\<lparr>status := ACTIVE\<rparr>) s
             in addHistoryEntry env caseId ''CASE_REOPENED''
                  ''Case reopened due to payment received after write-off'' ''system'' s1)
          else s)"

definition recordPaymentN ::
  "'n Arith \<Rightarrow> Env \<Rightarrow> string \<Rightarrow> string \<Rightarrow> 'n \<Rightarrow> 'n StateOf
     \<Rightarrow> 'n CaseOf option \<times> 'n StateOf" where
  "recordPaymentN ar env caseId paymentId amount s =
     (case cases s caseId of
        None \<Rightarrow> (None, s)
      | Some caseData \<Rightarrow>
          if setHas (idempotencyKey caseId paymentId) (processedPayments s)
          then (Some caseData, s)
          else
            (let s1 = applyPaymentAmountN ar env caseId amount s;
                 s2 = addHistoryEntry env caseId ''PAYMENT_RECEIVED''
                        (''Payment '' @ paymentId @ '' received: '' @ numToString ar amount
                           @ '' '' @ currency caseData)
                        ''payment-service'' s1;
                 s3 = autoCloseN ar env caseId s2;
                 s4 = reopenN ar env caseId amount s3;
                 s5 = s4\<lparr>processedPayments :=
                           setAdd (idempotencyKey caseId paymentId) (processedPayments s4)\<rparr>;
                 s6 = s5\<lparr>processedPayments := cleanup (processedPayments s5)\<rparr>
             in (cases s6 caseId, s6)))"

definition getCaseHistory :: "string \<Rightarrow> 'n StateOf \<Rightarrow> CaseHistoryEntry list" where
  "getCaseHistory caseId s = (case caseHistory s caseId of Some h \<Rightarrow> h | None \<Rightarrow> [])"




subsection \<open>The sample data (\<open>initializeSampleData\<close>)\<close>

definition case001 :: Case where
  "case001 =
     \<lparr>idC = ''CASE-2024-001'', debtorId = ''DBT-12345'', creditorId = ''CRED-BANK-001'',
      originalDebt = 18000, currentDebt = 15000, paidAmount = 3000, interestAccrued = 1200,
      currency = ''PLN'', status = SETTLEMENT, priority = MEDIUM,
      assignedAgentId = Some ''agent-anna-k'', assignedTeam = Some ''Settlement Team'',
      createdAt = 1686787200000, updatedAt = 1705276800000,
      lastContactAt = Some 1704844800000, lastPaymentAt = Some 1705276800000,
      nextActionAt = Some 1707955200000, closedAt = None,
      source = ''Portfolio-2023-Q2'', externalRef = Some ''BANK-REF-12345'',
      tags = Some [''settlement'', ''regular-payer''],
      notesC = Some ''Debtor cooperating well. Settlement plan: 12 monthly installments.''\<rparr>"

definition case002 :: Case where
  "case002 =
     \<lparr>idC = ''CASE-2024-002'', debtorId = ''DBT-67890'', creditorId = ''CRED-TELCO-001'',
      originalDebt = 10401 / 2, currentDebt = 10401 / 2, paidAmount = 0, interestAccrued = 320,
      currency = ''PLN'', status = ACTIVE, priority = HIGH,
      assignedAgentId = Some ''agent-jan-m'', assignedTeam = Some ''Collection Team A'',
      createdAt = 1704844800000, updatedAt = 1704844800000,
      lastContactAt = None, lastPaymentAt = None,
      nextActionAt = Some 1706140800000, closedAt = None,
      source = ''Direct-Assignment'', externalRef = Some ''TELCO-2024-67890'',
      tags = Some [''new-case'', ''first-contact-pending''], notesC = None\<rparr>"

definition case003 :: Case where
  "case003 =
     \<lparr>idC = ''CASE-2024-003'', debtorId = ''DBT-11111'', creditorId = ''CRED-BANK-002'',
      originalDebt = 45000, currentDebt = 40000, paidAmount = 5000, interestAccrued = 8500,
      currency = ''PLN'', status = LEGAL_ACTION, priority = CRITICAL,
      assignedAgentId = Some ''legal-team'', assignedTeam = Some ''Legal Department'',
      createdAt = 1647734400000, updatedAt = 1700006400000,
      lastContactAt = Some 1691625600000, lastPaymentAt = Some 1691625600000,
      nextActionAt = None, closedAt = None,
      source = ''Portfolio-2022-Q1'', externalRef = Some ''BANK-REF-11111'',
      tags = Some [''legal-action'', ''court-pending''],
      notesC = Some ''Court case in progress. File no: IC 1234/23. No contact from debtor.''\<rparr>"

definition case004 :: Case where
  "case004 =
     \<lparr>idC = ''CASE-2024-004'', debtorId = ''DBT-22222'', creditorId = ''CRED-UTILITY-001'',
      originalDebt = 8500, currentDebt = 0, paidAmount = 8500, interestAccrued = 0,
      currency = ''PLN'', status = CLOSED, priority = LOW,
      assignedAgentId = Some ''agent-piotr-s'', assignedTeam = Some ''Collection Team B'',
      createdAt = 1672876800000, updatedAt = 1705708800000,
      lastContactAt = Some 1705536000000, lastPaymentAt = Some 1705708800000,
      nextActionAt = None, closedAt = Some 1705708800000,
      source = ''Portfolio-2023-Q1'', externalRef = None,
      tags = Some [''paid-in-full''],
      notesC = Some ''Fully paid. Case closed successfully.''\<rparr>"

definition case005 :: Case where
  "case005 =
     \<lparr>idC = ''CASE-2024-005'', debtorId = ''DBT-33333'', creditorId = ''CRED-BANK-001'',
      originalDebt = 125000, currentDebt = 125000, paidAmount = 0, interestAccrued = 15000,
      currency = ''PLN'', status = WRITTEN_OFF, priority = LOW,
      assignedAgentId = None, assignedTeam = None,
      createdAt = 1559347200000, updatedAt = 1685577600000,
      lastContactAt = None, lastPaymentAt = None,
      nextActionAt = None, closedAt = None,
      source = ''Portfolio-2019-Q2'', externalRef = None,
      tags = Some [''written-off'', ''no-contact''],
      notesC = Some ''Debtor unreachable. Written off after 4 years.''\<rparr>"

definition sampleCases :: "Case list" where
  "sampleCases = [case001, case002, case003, case004, case005]"

definition initialState :: State where
  "initialState =
     fold (\<lambda>c s. s\<lparr>cases := (cases s)(idC c \<mapsto> c),
                    caseHistory := (caseHistory s)(idC c \<mapsto> [])\<rparr>)
       sampleCases
       \<lparr>cases = Map.empty, caseHistory = Map.empty, processedPayments = [],
        processedEventIds = [], tick = 0\<rparr>"

text \<open>
  The sample data over the numbers of an arithmetic \<open>ar\<close>: every decimal literal of
  \<open>initializeSampleData\<close> is the number that \<open>numLit ar\<close> gives for it.
\<close>

definition caseOfLit :: "'n Arith \<Rightarrow> Case \<Rightarrow> 'n CaseOf" where
  "caseOfLit ar c =
     \<lparr>idC = idC c, debtorId = debtorId c, creditorId = creditorId c,
      originalDebt = numLit ar (originalDebt c), currentDebt = numLit ar (currentDebt c),
      paidAmount = numLit ar (paidAmount c), interestAccrued = numLit ar (interestAccrued c),
      currency = currency c, status = status c, priority = priority c,
      assignedAgentId = assignedAgentId c, assignedTeam = assignedTeam c,
      createdAt = createdAt c, updatedAt = updatedAt c,
      lastContactAt = lastContactAt c, lastPaymentAt = lastPaymentAt c,
      nextActionAt = nextActionAt c, closedAt = closedAt c,
      source = source c, externalRef = externalRef c,
      tags = tags c, notesC = notesC c\<rparr>"


text \<open>A concrete environment, for evaluating the code on examples.\<close>

definition env0 :: Env where
  "env0 = \<lparr>dateAt = (\<lambda>n. 1706745600000 + int n),
           uuidAt = (\<lambda>n. ''3f2a9c1e-0000-4000-8000-'' @ replicate n (CHR ''a'')),
           numberToString = (\<lambda>r. ''n''),
           fullYear = (\<lambda>d. ''2024''),
           publishThrows = (\<lambda>n. False)\<rparr>"

definition arith0 :: "rat Arith" where
  "arith0 = exactArith (numberToString env0)"

section \<open>CaseEventPublisher.ts\<close>

record BalanceUpdatePayload =
  buCaseId :: string
  previousBalance :: rat
  newBalance :: rat
  buPaymentId :: string
  paymentAmount :: rat
  buCurrency :: string
  caseStatus :: CaseStatus

record StatusChangePayload =
  scCaseId :: string
  previousStatus :: CaseStatus
  newStatus :: CaseStatus
  scReason :: string

datatype EventPayload = BalanceUpdated BalanceUpdatePayload | StatusChanged StatusChangePayload

text \<open>The envelope of an outgoing event; \<open>evTimestamp\<close> is the date that \<open>toISOString\<close> prints.\<close>

record CaseEvent =
  evEventId :: string
  evEventType :: string
  evTimestamp :: Date
  evVersion :: string
  evSource :: string
  evCorrelationId :: string
  evPayload :: EventPayload

text \<open>
  What a handler does to the outside, in the order it does it. \<open>Reconciled\<close> marks the
  return of \<open>caseService.recordPayment\<close> with a case; \<open>Published\<close> is a
  \<open>channel.publish\<close> that went through; \<open>PublishFailed\<close> is the \<open>console.error\<close> of the
  \<open>catch\<close> in \<open>publish\<close>; \<open>Ack\<close> and \<open>Nack requeue\<close> are \<open>channel.ack(msg)\<close> and
  \<open>channel.nack(msg, false, requeue)\<close>; \<open>Rejected\<close> is an exception that leaves the
  consumer callback (its promise rejects, and the message is neither acknowledged nor
  negatively acknowledged).
\<close>

datatype Effect =
    Reconciled string string rat
  | Published string CaseEvent
  | PublishFailed string
  | Ack
  | Nack bool
  | Rejected

text \<open>
  \<^verbatim>\<open>private async publish(routingKey, event) {
    try { const channel = await rabbitmq.getChannel(); ... channel.publish(...) }
    catch (error) { console.error(...) /* Don't throw */ }
  }\<close>
  The \<open>try\<close> block reads the clock once (\<open>timestamp: Date.now()\<close>).
\<close>

definition publish :: "Env \<Rightarrow> string \<Rightarrow> CaseEvent \<Rightarrow> State \<Rightarrow> Effect list \<times> State" where
  "publish env routingKey event s =
     (if publishThrows env (tick s)
      then ([PublishFailed routingKey], s\<lparr>tick := tick s + 1\<rparr>)
      else ([Published routingKey event], s\<lparr>tick := tick s + 1\<rparr>))"

definition publishBalanceUpdated ::
  "Env \<Rightarrow> BalanceUpdatePayload \<Rightarrow> State \<Rightarrow> Effect list \<times> State" where
  "publishBalanceUpdated env payload s =
     (let event = \<lparr>evEventId = uuidAt env (tick s),
                   evEventType = ''case.balance.updated'',
                   evTimestamp = dateAt env (tick s + 1),
                   evVersion = ''1.0'', evSource = ''case-service'',
                   evCorrelationId = buPaymentId payload,
                   evPayload = BalanceUpdated payload\<rparr>
      in publish env ''case.balance.updated'' event (s\<lparr>tick := tick s + 2\<rparr>))"

definition publishStatusChanged ::
  "Env \<Rightarrow> StatusChangePayload \<Rightarrow> State \<Rightarrow> Effect list \<times> State" where
  "publishStatusChanged env payload s =
     (let event = \<lparr>evEventId = uuidAt env (tick s),
                   evEventType = ''case.status.changed'',
                   evTimestamp = dateAt env (tick s + 1),
                   evVersion = ''1.0'', evSource = ''case-service'',
                   evCorrelationId = scCaseId payload,
                   evPayload = StatusChanged payload\<rparr>
      in publish env ''case.status.changed'' event (s\<lparr>tick := tick s + 2\<rparr>))"

section \<open>PaymentEventConsumer.ts\<close>

record PaymentPayload =
  payId :: string
  payCaseId :: string
  payDebtorId :: string
  payAmount :: rat
  payCurrency :: string
  payStatus :: string
  payProcessedAt :: "string option"

record PaymentCompletedEvent =
  inEventId :: string
  inEventType :: string
  inTimestamp :: string
  inVersion :: string
  inSource :: string
  inCorrelationId :: string
  inPayload :: PaymentPayload

text \<open>
  The content of a message is a buffer of bytes, and the callback reads it with
  \<open>JSON.parse(msg.content.toString()) as PaymentCompletedEvent\<close>, a cast that checks
  nothing. The callback's control flow tells three kinds of content apart:
  \<^item> \<open>Unparsable\<close>: \<open>JSON.parse\<close> throws, or returns a falsy value (\<open>null\<close>, \<open>0\<close>,
    \<open>false\<close>, the empty string), on which \<open>event.payload.id\<close> in the first log line throws.
    In the \<open>catch\<close> block \<open>event\<close> is falsy.
  \<^item> \<open>NoPayload\<close>: \<open>JSON.parse\<close> returns a truthy value whose \<open>payload\<close> is
    \<open>undefined\<close> or \<open>null\<close>, such as \<open>{}\<close>; \<open>event.payload.id\<close> in the first log line
    throws a TypeError. In the \<open>catch\<close> block \<open>event\<close> is truthy.
  \<^item> \<open>Parsed e\<close>: an event with a payload; its fields are taken at their declared types.
\<close>

datatype Content = Unparsable | NoPayload | Parsed PaymentCompletedEvent

text \<open>
  \<open>xDeath\<close> is \<open>msg.properties.headers?.['x-death']\<close>: \<open>None\<close> when the header is
  absent or not an array, else the \<open>count\<close> of each entry (\<open>None\<close> for a missing one).
\<close>

record ConsumeMessage =
  content :: Content
  xDeath :: "int option list option"

text \<open>\<open>xDeath.reduce((count, death) => count + (death.count || 0), 0)\<close>\<close>

definition getDeathCount :: "ConsumeMessage \<Rightarrow> int" where
  "getDeathCount msg =
     (case xDeath msg of
        None \<Rightarrow> 0
      | Some deaths \<Rightarrow>
          foldl (\<lambda>count death. count + (case death of None \<Rightarrow> 0 | Some n \<Rightarrow> n)) 0 deaths)"

text \<open>
  \<open>handlePaymentCompleted\<close> returns \<open>Inl message\<close> for a thrown \<open>Error\<close>, else its
  effects. \<open>getCaseById\<close> and \<open>recordPayment\<close> both return the object that \<open>cases\<close> holds
  for \<open>payload.caseId\<close>, so \<open>caseBefore\<close> and \<open>updatedCase\<close> are two references to one
  object: \<open>previousBalance\<close> is a number copied before the payment, while
  \<open>caseBefore.status\<close> and \<open>updatedCase.status\<close> are read after it, through the
  references, from the state as it then is. No code removes a case from \<open>cases\<close>, so
  both references resolve; the last branch of the \<open>case\<close> is there for totality only.
\<close>

definition handlePaymentCompleted ::
  "Env \<Rightarrow> PaymentCompletedEvent \<Rightarrow> State \<Rightarrow> (string + Effect list) \<times> State" where
  "handlePaymentCompleted env event s =
     (let payload = inPayload event in
      case getCaseById (payCaseId payload) s of
        None \<Rightarrow> (Inl (''Case not found: '' @ payCaseId payload), s)
      | Some caseBeforeValue \<Rightarrow>
          (let caseBefore = payCaseId payload;
               previousBalance = currentDebt caseBeforeValue;
               (returned, s1) =
                  recordPayment env (payCaseId payload) (payId payload) (payAmount payload) s
           in case returned of
                None \<Rightarrow> (Inl (''Failed to record payment for case: '' @ payCaseId payload), s1)
              | Some updatedValue \<Rightarrow>
                  (let updatedCase = payCaseId payload;
                       (effs1, s2) =
                          publishBalanceUpdated env
                            \<lparr>buCaseId = payCaseId payload,
                             previousBalance = previousBalance,
                             newBalance = currentDebt updatedValue,
                             buPaymentId = payId payload,
                             paymentAmount = payAmount payload,
                             buCurrency = payCurrency payload,
                             caseStatus = status updatedValue\<rparr> s1;
                       reconciled = Reconciled (payCaseId payload) (payId payload)
                                      (payAmount payload)
                   in case (cases s2 caseBefore, cases s2 updatedCase) of
                        (Some beforeNow, Some updatedNow) \<Rightarrow>
                          if status beforeNow \<noteq> status updatedNow then
                            (let (effs2, s3) =
                                   publishStatusChanged env
                                     \<lparr>scCaseId = payCaseId payload,
                                      previousStatus = status beforeNow,
                                      newStatus = status updatedNow,
                                      scReason =
                                        (if currentDebt updatedNow \<le> 0
                                         then ''Debt fully paid'' else ''Status updated'')\<rparr> s2
                             in (Inr (reconciled # effs1 @ effs2), s3))
                          else (Inr (reconciled # effs1), s2)
                      | _ \<Rightarrow> (Inr (reconciled # effs1), s2))))"

text \<open>
  The \<open>catch\<close> block of the callback, for a message \<open>msg\<close> whose \<open>event\<close> is falsy or has
  a payload: it logs, reads the death count and negatively acknowledges.
\<close>

definition retryOrDeadLetter :: "ConsumeMessage \<Rightarrow> Effect list" where
  "retryOrDeadLetter msg =
     (let deaths = getDeathCount msg in
      if deaths < 3 then [Nack True] else [Nack False])"

text \<open>
  The callback given to \<open>channel.consume\<close>. In the \<open>catch\<close> block the log line evaluates
  \<open>event ? `paymentId=${event.payload.id}` : ''\<close> before anything else: for \<open>NoPayload\<close>
  this throws again, outside any \<open>try\<close>, and the callback ends there.
\<close>

definition onMessage :: "Env \<Rightarrow> ConsumeMessage option \<Rightarrow> State \<Rightarrow> Effect list \<times> State" where
  "onMessage env m s =
     (case m of
        None \<Rightarrow> ([], s)
      | Some msg \<Rightarrow>
          (case content msg of
             Unparsable \<Rightarrow> (retryOrDeadLetter msg, s)
           | NoPayload \<Rightarrow> ([Rejected], s)
           | Parsed event \<Rightarrow>
               if setHas (inEventId event) (processedEventIds s) then ([Ack], s)
               else
                 (case handlePaymentCompleted env event s of
                    (Inl err, s1) \<Rightarrow> (retryOrDeadLetter msg, s1)
                  | (Inr effs, s1) \<Rightarrow>
                      (let s2 = s1\<lparr>processedEventIds :=
                                     setAdd (inEventId event) (processedEventIds s1)\<rparr>;
                           s3 = s2\<lparr>processedEventIds := cleanup (processedEventIds s2)\<rparr>
                       in (effs @ [Ack], s3)))))"

text \<open>
  Predicates on the effects of the callback. \<open>isPublishAttempt\<close> holds of a publish that
  went through and of one that failed; \<open>processingThrows\<close> tells whether the \<open>try\<close> block
  of the callback throws on a message; \<open>publishedAfterAck\<close> says that no publish attempt
  comes before the acknowledgement.
\<close>

fun isPublishAttempt :: "Effect \<Rightarrow> bool" where
  "isPublishAttempt (Published k e) = True"
| "isPublishAttempt (PublishFailed k) = True"
| "isPublishAttempt _ = False"

fun routingKeyOf :: "Effect \<Rightarrow> string option" where
  "routingKeyOf (Published k e) = Some k"
| "routingKeyOf (PublishFailed k) = Some k"
| "routingKeyOf _ = None"

definition processingThrows :: "Env \<Rightarrow> ConsumeMessage \<Rightarrow> State \<Rightarrow> bool" where
  "processingThrows env msg s =
     (case content msg of
        Unparsable \<Rightarrow> True
      | NoPayload \<Rightarrow> True
      | Parsed event \<Rightarrow>
          \<not> setHas (inEventId event) (processedEventIds s)
          \<and> isl (fst (handlePaymentCompleted env event s)))"

definition publishedAfterAck :: "Effect list \<Rightarrow> bool" where
  "publishedAfterAck effs \<longleftrightarrow>
     list_all (\<lambda>e. \<not> isPublishAttempt e) (takeWhile (\<lambda>e. e \<noteq> Ack) effs)"

section \<open>Operations on the case store\<close>




text \<open>
  \<open>recomputedDebt ar c\<close> is \<open>Math.max(0, originalDebt + interestAccrued - paidAmount)\<close> on
  the fields of \<open>c\<close>, and \<open>balanced ar c\<close> is the balance equation
  \<open>currentDebt == Math.max(0, originalDebt + interestAccrued - paidAmount)\<close>.
  A payment has been applied to the cases whose history holds a PAYMENT_RECEIVED entry.
\<close>

definition recomputedDebt :: "'n Arith \<Rightarrow> 'n CaseOf \<Rightarrow> 'n" where
  "recomputedDebt ar c =
     numMax ar (numLit ar 0)
       (numSub ar (numAdd ar (originalDebt c) (interestAccrued c)) (paidAmount c))"

definition balanced :: "'n Arith \<Rightarrow> 'n CaseOf \<Rightarrow> bool" where
  "balanced ar c \<longleftrightarrow> numEq ar (currentDebt c) (recomputedDebt ar c)"

definition paymentRecorded :: "string \<Rightarrow> 'n StateOf \<Rightarrow> bool" where
  "paymentRecorded i s \<longleftrightarrow> ''PAYMENT_RECEIVED'' \<in> set (map action (getCaseHistory i s))"

text \<open>
  The money fields of a case to which no payment has been applied: \<open>asCreated\<close>, as
  \<open>createCase\<close> sets them, and \<open>asSample\<close>, as the sample data has them for the case of
  that id. \<open>plainNonNegative ar x\<close> says that \<open>x + 0\<close>, \<open>x - 0\<close> and \<open>Math.max(0, x)\<close>
  are \<open>x\<close> and that \<open>x == x\<close>; among the doubles this holds of the positive numbers,
  of \<open>0\<close> and of \<open>Infinity\<close>, and of no negative number and not of \<open>NaN\<close>.
\<close>

definition asCreated :: "'n Arith \<Rightarrow> 'n CaseOf \<Rightarrow> bool" where
  "asCreated ar d \<longleftrightarrow>
     paidAmount d = numLit ar 0 \<and> interestAccrued d = numLit ar 0
     \<and> currentDebt d = originalDebt d"

definition asSample :: "'n Arith \<Rightarrow> string \<Rightarrow> 'n CaseOf \<Rightarrow> bool" where
  "asSample ar j d \<longleftrightarrow>
     list_ex (\<lambda>c. idC c = j
                \<and> originalDebt d = numLit ar (originalDebt c)
                \<and> interestAccrued d = numLit ar (interestAccrued c)
                \<and> paidAmount d = numLit ar (paidAmount c)
                \<and> currentDebt d = numLit ar (currentDebt c)) sampleCases"


definition accounted :: "'n Arith \<Rightarrow> 'n StateOf \<Rightarrow> string \<Rightarrow> 'n CaseOf \<Rightarrow> bool" where
  "accounted ar s j d \<longleftrightarrow>
     (if paymentRecorded j s then currentDebt d = recomputedDebt ar d
      else asCreated ar d \<or> asSample ar j d)"

definition allAccounted :: "'n Arith \<Rightarrow> 'n StateOf \<Rightarrow> bool" where
  "allAccounted ar s \<longleftrightarrow> (\<forall>j d. cases s j = Some d \<longrightarrow> accounted ar s j d)"

text \<open>
  A ledger that holds 10000 keys of the case CASE-2024-001, oldest first, and the sample
  state with that ledger.
\<close>

definition fullLedger :: "string list" where
  "fullLedger = map (\<lambda>n. idempotencyKey ''CASE-2024-001'' (replicate n (CHR ''p''))) [0..<10000]"

definition fullState :: State where
  "fullState = initialState\<lparr>processedPayments := fullLedger\<rparr>"

text \<open>A payment message for the sample case CASE-2024-001.\<close>

definition sampleEvent :: PaymentCompletedEvent where
  "sampleEvent =
     \<lparr>inEventId = ''evt-0001'', inEventType = ''payment.completed'',
      inTimestamp = ''2024-02-01T00:00:00.000Z'', inVersion = ''1.0'',
      inSource = ''payment-service'', inCorrelationId = ''corr-0001'',
      inPayload = \<lparr>payId = ''PAY-EVT-001'', payCaseId = ''CASE-2024-001'',
                    payDebtorId = ''DBT-12345'', payAmount = 1500, payCurrency = ''PLN'',
                    payStatus = ''COMPLETED'', payProcessedAt = None\<rparr>\<rparr>"

section \<open>Sequences of calls\<close>

text \<open>A sequence of \<open>recordPayment\<close> calls, each given as (caseId, paymentId, amount).\<close>

fun recordPayments :: "Env \<Rightarrow> (string \<times> string \<times> rat) list \<Rightarrow> State \<Rightarrow> State" where
  "recordPayments env [] s = s"
| "recordPayments env ((caseId, paymentId, amount) # calls) s =
     recordPayments env calls (snd (recordPayment env caseId paymentId amount s))"

section \<open>Auxiliary definitions for the proofs\<close>

text \<open>
  For a case \<open>c\<close> as stored when a payment of \<open>a\<close> is applied: \<open>closes c a\<close> is the
  condition of the auto-close block evaluated after the balance is recomputed,
  \<open>reopens c a\<close> the condition of the reopen block evaluated after the auto-close block;
  \<open>paidCase\<close> is the case after the four assignments, \<open>paidState\<close> the state after the
  PAYMENT_RECEIVED history entry, \<open>settledCase\<close> the case that \<open>recordPayment\<close> returns.
\<close>

definition closes :: "Case \<Rightarrow> rat \<Rightarrow> bool" where
  "closes c amount \<longleftrightarrow>
     max 0 (originalDebt c + interestAccrued c - (paidAmount c + amount)) \<le> 0 \<and> status c \<noteq> CLOSED"

definition reopens :: "Case \<Rightarrow> rat \<Rightarrow> bool" where
  "reopens c amount \<longleftrightarrow> \<not> closes c amount \<and> status c = WRITTEN_OFF \<and> amount > 0"

definition paidCase :: "Env \<Rightarrow> State \<Rightarrow> Case \<Rightarrow> rat \<Rightarrow> Case" where
  "paidCase env s c a =
     c\<lparr>paidAmount := paidAmount c + a,
       currentDebt := max 0 (originalDebt c + interestAccrued c - (paidAmount c + a)),
       lastPaymentAt := Some (dateAt env (tick s)),
       updatedAt := dateAt env (tick s + 1)\<rparr>"

definition paidState :: "Env \<Rightarrow> State \<Rightarrow> string \<Rightarrow> string \<Rightarrow> Case \<Rightarrow> rat \<Rightarrow> State" where
  "paidState env s i p c a =
     addHistoryEntry env i ''PAYMENT_RECEIVED''
       (''Payment '' @ p @ '' received: '' @ numberToString env a @ '' '' @ currency c)
       ''payment-service'' (applyPaymentAmount env i a s)"

definition settledCase :: "Env \<Rightarrow> State \<Rightarrow> Case \<Rightarrow> rat \<Rightarrow> Case" where
  "settledCase env s c a =
     (if closes c a
      then (paidCase env s c a)\<lparr>status := CLOSED, closedAt := Some (dateAt env (tick s + 4))\<rparr>
      else if reopens c a then (paidCase env s c a)\<lparr>status := ACTIVE\<rparr>
      else paidCase env s c a)"

text \<open>The same for \<open>recordPaymentN\<close>; \<open>newDebtN ar c a\<close> is the balance it recomputes.\<close>

definition newDebtN :: "'n Arith \<Rightarrow> 'n CaseOf \<Rightarrow> 'n \<Rightarrow> 'n" where
  "newDebtN ar c a =
     numMax ar (numLit ar 0)
       (numSub ar (numAdd ar (originalDebt c) (interestAccrued c))
          (numAdd ar (paidAmount c) a))"

definition closesN :: "'n Arith \<Rightarrow> 'n CaseOf \<Rightarrow> 'n \<Rightarrow> bool" where
  "closesN ar c a \<longleftrightarrow> numLe ar (newDebtN ar c a) (numLit ar 0) \<and> status c \<noteq> CLOSED"

definition reopensN :: "'n Arith \<Rightarrow> 'n CaseOf \<Rightarrow> 'n \<Rightarrow> bool" where
  "reopensN ar c a \<longleftrightarrow>
     \<not> closesN ar c a \<and> status c = WRITTEN_OFF \<and> numGt ar a (numLit ar 0)"

definition paidCaseN :: "'n Arith \<Rightarrow> Env \<Rightarrow> 'n StateOf \<Rightarrow> 'n CaseOf \<Rightarrow> 'n \<Rightarrow> 'n CaseOf" where
  "paidCaseN ar env s c a =
     c\<lparr>paidAmount := numAdd ar (paidAmount c) a,
       currentDebt := newDebtN ar c a,
       lastPaymentAt := Some (dateAt env (tick s)),
       updatedAt := dateAt env (tick s + 1)\<rparr>"

definition paidStateN ::
  "'n Arith \<Rightarrow> Env \<Rightarrow> 'n StateOf \<Rightarrow> string \<Rightarrow> string \<Rightarrow> 'n CaseOf \<Rightarrow> 'n \<Rightarrow> 'n StateOf" where
  "paidStateN ar env s i p c a =
     addHistoryEntry env i ''PAYMENT_RECEIVED''
       (''Payment '' @ p @ '' received: '' @ numToString ar a @ '' '' @ currency c)
       ''payment-service'' (applyPaymentAmountN ar env i a s)"

definition settledCaseN :: "'n Arith \<Rightarrow> Env \<Rightarrow> 'n StateOf \<Rightarrow> 'n CaseOf \<Rightarrow> 'n \<Rightarrow> 'n CaseOf" where
  "settledCaseN ar env s c a =
     (if closesN ar c a
      then (paidCaseN ar env s c a)\<lparr>status := CLOSED,
             closedAt := Some (dateAt env (tick s + 4))\<rparr>
      else if reopensN ar c a then (paidCaseN ar env s c a)\<lparr>status := ACTIVE\<rparr>
      else paidCaseN ar env s c a)"

section \<open>Properties\<close>

subsection \<open>The steps of \<open>recordPayment\<close>\<close>

lemma initial_cases:
  "cases initialState ''CASE-2024-001'' = Some case001"
  "cases initialState ''CASE-2024-002'' = Some case002"
  "cases initialState ''CASE-2024-003'' = Some case003"
  "cases initialState ''CASE-2024-004'' = Some case004"
  "cases initialState ''CASE-2024-005'' = Some case005"
  by (simp_all add: initialState_def sampleCases_def case001_def case002_def case003_def
  case004_def case005_def)

lemma initial_rest:
  "processedPayments initialState = []" "processedEventIds initialState = []" "tick initialState = 0"
  by (simp_all add: initialState_def sampleCases_def)

lemma modifyCase_Some:
  "cases s i = Some c \<Longrightarrow> modifyCase i f s = s\<lparr>cases := (cases s)(i \<mapsto> f c)\<rparr>"
  by (simp add: modifyCase_def)

lemma addHistoryEntry_sel [simp]:
  "cases (addHistoryEntry env i a d b s) = cases s"
  "processedPayments (addHistoryEntry env i a d b s) = processedPayments s"
  "processedEventIds (addHistoryEntry env i a d b s) = processedEventIds s"
  "tick (addHistoryEntry env i a d b s) = tick s + 2"
  by (simp_all add: addHistoryEntry_def Let_def)

lemma addHistoryEntry_history:
  "getCaseHistory j (addHistoryEntry env i a d b s)
     = (if j = i
        then getCaseHistory i s @
             [\<lparr>entryId = uuidAt env (tick s), entryCaseId = i, action = a, description = d,
               performedBy = b, performedAt = dateAt env (tick s + 1), metadata = None\<rparr>]
        else getCaseHistory j s)"
  by (simp add: addHistoryEntry_def getCaseHistory_def Let_def)

lemma applyPaymentAmount_Some:
  "cases s i = Some c \<Longrightarrow>
   applyPaymentAmount env i amount s
     = s\<lparr>cases := (cases s)(i \<mapsto>
            c\<lparr>paidAmount := paidAmount c + amount,
              currentDebt := max 0 (originalDebt c + interestAccrued c - (paidAmount c + amount)),
              lastPaymentAt := Some (dateAt env (tick s)),
              updatedAt := dateAt env (tick s + 1)\<rparr>),
          tick := tick s + 2\<rparr>"
  by (simp add: applyPaymentAmount_def modifyCase_def Let_def)

lemma autoClose_Some:
  "cases s i = Some c \<Longrightarrow>
   autoClose env i s
     = (if currentDebt c \<le> 0 \<and> status c \<noteq> CLOSED
        then addHistoryEntry env i ''CASE_CLOSED'' ''Case auto-closed: debt fully paid'' ''system''
               (s\<lparr>cases := (cases s)(i \<mapsto> c\<lparr>status := CLOSED, closedAt := Some (dateAt env (tick s))\<rparr>),
                  tick := tick s + 1\<rparr>)
        else s)"
  by (simp add: autoClose_def modifyCase_def Let_def)

lemma reopen_Some:
  "cases s i = Some c \<Longrightarrow>
   reopen env i amount s
     = (if status c = WRITTEN_OFF \<and> amount > 0
        then addHistoryEntry env i ''CASE_REOPENED''
               ''Case reopened due to payment received after write-off'' ''system''
               (s\<lparr>cases := (cases s)(i \<mapsto> c\<lparr>status := ACTIVE\<rparr>)\<rparr>)
        else s)"
  by (simp add: reopen_def modifyCase_def Let_def)


lemma modifyCase_sel [simp]:
  "processedPayments (modifyCase i f s) = processedPayments s"
  "processedEventIds (modifyCase i f s) = processedEventIds s"
  "caseHistory (modifyCase i f s) = caseHistory s"
  "tick (modifyCase i f s) = tick s"
  by (simp_all add: modifyCase_def split: option.splits)

lemma applyPaymentAmount_sel [simp]:
  "processedPayments (applyPaymentAmount env i a s) = processedPayments s"
  "processedEventIds (applyPaymentAmount env i a s) = processedEventIds s"
  "caseHistory (applyPaymentAmount env i a s) = caseHistory s"
  by (simp_all add: applyPaymentAmount_def Let_def)

lemma autoClose_sel [simp]:
  "processedPayments (autoClose env i s) = processedPayments s"
  "processedEventIds (autoClose env i s) = processedEventIds s"
  by (simp_all add: autoClose_def Let_def split: option.splits)

lemma reopen_sel [simp]:
  "processedPayments (reopen env i a s) = processedPayments s"
  "processedEventIds (reopen env i a s) = processedEventIds s"
  by (simp_all add: reopen_def Let_def split: option.splits)



lemma getCaseHistory_upd [simp]:
  "getCaseHistory j (s\<lparr>cases := x\<rparr>) = getCaseHistory j s"
  "getCaseHistory j (s\<lparr>tick := n\<rparr>) = getCaseHistory j s"
  "getCaseHistory j (s\<lparr>processedPayments := l\<rparr>) = getCaseHistory j s"
  "getCaseHistory j (s\<lparr>processedEventIds := l\<rparr>) = getCaseHistory j s"
  by (simp_all add: getCaseHistory_def)

lemma paidState_facts:
  assumes "cases s i = Some c"
  shows "cases (paidState env s i p c a) = (cases s)(i \<mapsto> paidCase env s c a)"
    and "tick (paidState env s i p c a) = tick s + 4"
    and "map action (getCaseHistory j (paidState env s i p c a)) =
          (if j = i then map action (getCaseHistory i s) @ [''PAYMENT_RECEIVED'']
           else map action (getCaseHistory j s))"
  using assms
  by (simp_all add: paidState_def paidCase_def applyPaymentAmount_Some addHistoryEntry_history)

lemma paidState_sel [simp]:
  "processedPayments (paidState env s i p c a) = processedPayments s"
  "processedEventIds (paidState env s i p c a) = processedEventIds s"
  by (simp_all add: paidState_def)

lemma closes_paidCase:
  "currentDebt (paidCase env s c a) \<le> 0 \<and> status (paidCase env s c a) \<noteq> CLOSED
     \<longleftrightarrow> closes c a"
  by (simp add: paidCase_def closes_def)


lemma closedState_facts:
  assumes "cases s i = Some c"
  shows "cases (autoClose env i (paidState env s i p c a)) =
           (cases s)(i \<mapsto> (if closes c a
                           then (paidCase env s c a)\<lparr>status := CLOSED,
                                  closedAt := Some (dateAt env (tick s + 4))\<rparr>
                           else paidCase env s c a))"
    and "map action (getCaseHistory j (autoClose env i (paidState env s i p c a))) =
          (if j = i
           then map action (getCaseHistory i s) @ [''PAYMENT_RECEIVED''] @
                (if closes c a then [''CASE_CLOSED''] else [])
           else map action (getCaseHistory j s))"
proof -
  have c2: "cases (paidState env s i p c a) i = Some (paidCase env s c a)"
    by (simp add: paidState_facts(1) [OF assms])
  show "cases (autoClose env i (paidState env s i p c a)) =
           (cases s)(i \<mapsto> (if closes c a
                           then (paidCase env s c a)\<lparr>status := CLOSED,
                                  closedAt := Some (dateAt env (tick s + 4))\<rparr>
                           else paidCase env s c a))"
    unfolding autoClose_Some [OF c2] closes_paidCase
    by (simp add: paidState_facts(1,2) [OF assms])
  show "map action (getCaseHistory j (autoClose env i (paidState env s i p c a))) =
          (if j = i
           then map action (getCaseHistory i s) @ [''PAYMENT_RECEIVED''] @
                (if closes c a then [''CASE_CLOSED''] else [])
           else map action (getCaseHistory j s))"
    unfolding autoClose_Some [OF c2] closes_paidCase
    by (simp add: addHistoryEntry_history paidState_facts(3) [OF assms])
qed


lemma reopenedState_facts:
  assumes "cases s i = Some c"
  shows "cases (reopen env i a (autoClose env i (paidState env s i p c a))) =
           (cases s)(i \<mapsto> settledCase env s c a)"
    and "map action (getCaseHistory j (reopen env i a (autoClose env i (paidState env s i p c a)))) =
          (if j = i
           then map action (getCaseHistory i s) @ [''PAYMENT_RECEIVED''] @
                (if closes c a then [''CASE_CLOSED'']
                 else if reopens c a then [''CASE_REOPENED''] else [])
           else map action (getCaseHistory j s))"
proof -
  let ?s3 = "autoClose env i (paidState env s i p c a)"
  let ?c3 = "if closes c a
             then (paidCase env s c a)\<lparr>status := CLOSED,
                    closedAt := Some (dateAt env (tick s + 4))\<rparr>
             else paidCase env s c a"
  have c3: "cases ?s3 i = Some ?c3"
    by (simp add: closedState_facts(1) [OF assms])
  have r: "status ?c3 = WRITTEN_OFF \<and> a > 0 \<longleftrightarrow> reopens c a"
    by (simp add: reopens_def paidCase_def)
  show "cases (reopen env i a ?s3) = (cases s)(i \<mapsto> settledCase env s c a)"
    unfolding reopen_Some [OF c3] r
    by (simp add: closedState_facts(1) [OF assms] settledCase_def reopens_def)
  show "map action (getCaseHistory j (reopen env i a ?s3)) =
          (if j = i
           then map action (getCaseHistory i s) @ [''PAYMENT_RECEIVED''] @
                (if closes c a then [''CASE_CLOSED'']
                 else if reopens c a then [''CASE_REOPENED''] else [])
           else map action (getCaseHistory j s))"
    unfolding reopen_Some [OF c3] r
    by (simp add: addHistoryEntry_history closedState_facts(2) [OF assms] reopens_def)
qed

lemma recordPayment_fresh:
  assumes "cases s i = Some c"
    and "idempotencyKey i p \<notin> set (processedPayments s)"
  shows "recordPayment env i p a s =
    (let s4 = reopen env i a (autoClose env i (paidState env s i p c a))
     in (cases s4 i,
         s4\<lparr>processedPayments := cleanup (processedPayments s @ [idempotencyKey i p])\<rparr>))"
  using assms by (simp add: recordPayment_def paidState_def setHas_def setAdd_def Let_def)

lemma recordPayment_fresh_facts:
  assumes "cases s i = Some c"
    and "idempotencyKey i p \<notin> set (processedPayments s)"
  shows "fst (recordPayment env i p a s) = Some (settledCase env s c a)"
    and "cases (snd (recordPayment env i p a s)) = (cases s)(i \<mapsto> settledCase env s c a)"
    and "processedPayments (snd (recordPayment env i p a s))
           = cleanup (processedPayments s @ [idempotencyKey i p])"
    and "processedEventIds (snd (recordPayment env i p a s)) = processedEventIds s"
    and "map action (getCaseHistory j (snd (recordPayment env i p a s))) =
          (if j = i
           then map action (getCaseHistory i s) @ [''PAYMENT_RECEIVED''] @
                (if closes c a then [''CASE_CLOSED'']
                 else if reopens c a then [''CASE_REOPENED''] else [])
           else map action (getCaseHistory j s))"
  unfolding recordPayment_fresh [OF assms] Let_def
  by (simp_all add: reopenedState_facts [OF assms(1)])

lemma recordPayment_duplicate:
  assumes "cases s caseId = Some c"
    and "idempotencyKey caseId paymentId \<in> set (processedPayments s)"
  shows "recordPayment env caseId paymentId amount s = (Some c, s)"
  using assms by (simp add: recordPayment_def setHas_def)

lemma recordPayment_unknown:
  "cases s caseId = None \<Longrightarrow> recordPayment env caseId paymentId amount s = (None, s)"
  by (simp add: recordPayment_def)

subsection \<open>The steps of \<open>recordPaymentN\<close>\<close>

lemma applyPaymentAmountN_Some:
  "cases s i = Some c \<Longrightarrow>
   applyPaymentAmountN ar env i amount s
     = s\<lparr>cases := (cases s)(i \<mapsto> paidCaseN ar env s c amount), tick := tick s + 2\<rparr>"
  by (simp add: applyPaymentAmountN_def paidCaseN_def newDebtN_def modifyCase_def Let_def)

lemma autoCloseN_Some:
  "cases s i = Some c \<Longrightarrow>
   autoCloseN ar env i s
     = (if numLe ar (currentDebt c) (numLit ar 0) \<and> status c \<noteq> CLOSED
        then addHistoryEntry env i ''CASE_CLOSED'' ''Case auto-closed: debt fully paid'' ''system''
               (s\<lparr>cases := (cases s)(i \<mapsto> c\<lparr>status := CLOSED,
                                          closedAt := Some (dateAt env (tick s))\<rparr>),
                  tick := tick s + 1\<rparr>)
        else s)"
  by (simp add: autoCloseN_def modifyCase_def Let_def)

lemma reopenN_Some:
  "cases s i = Some c \<Longrightarrow>
   reopenN ar env i amount s
     = (if status c = WRITTEN_OFF \<and> numGt ar amount (numLit ar 0)
        then addHistoryEntry env i ''CASE_REOPENED''
               ''Case reopened due to payment received after write-off'' ''system''
               (s\<lparr>cases := (cases s)(i \<mapsto> c\<lparr>status := ACTIVE\<rparr>)\<rparr>)
        else s)"
  by (simp add: reopenN_def modifyCase_def Let_def)

lemma applyPaymentAmountN_sel [simp]:
  "processedPayments (applyPaymentAmountN ar env i a s) = processedPayments s"
  "processedEventIds (applyPaymentAmountN ar env i a s) = processedEventIds s"
  "caseHistory (applyPaymentAmountN ar env i a s) = caseHistory s"
  by (simp_all add: applyPaymentAmountN_def Let_def)

lemma autoCloseN_sel [simp]:
  "processedPayments (autoCloseN ar env i s) = processedPayments s"
  "processedEventIds (autoCloseN ar env i s) = processedEventIds s"
  by (simp_all add: autoCloseN_def Let_def split: option.splits)

lemma reopenN_sel [simp]:
  "processedPayments (reopenN ar env i a s) = processedPayments s"
  "processedEventIds (reopenN ar env i a s) = processedEventIds s"
  by (simp_all add: reopenN_def Let_def split: option.splits)

lemma paidStateN_facts:
  assumes "cases s i = Some c"
  shows "cases (paidStateN ar env s i p c a) = (cases s)(i \<mapsto> paidCaseN ar env s c a)"
    and "tick (paidStateN ar env s i p c a) = tick s + 4"
    and "map action (getCaseHistory j (paidStateN ar env s i p c a)) =
          (if j = i then map action (getCaseHistory i s) @ [''PAYMENT_RECEIVED'']
           else map action (getCaseHistory j s))"
  using assms
  by (simp_all add: paidStateN_def applyPaymentAmountN_Some addHistoryEntry_history)

lemma paidStateN_sel [simp]:
  "processedPayments (paidStateN ar env s i p c a) = processedPayments s"
  "processedEventIds (paidStateN ar env s i p c a) = processedEventIds s"
  by (simp_all add: paidStateN_def)

lemma closesN_paidCaseN:
  "numLe ar (currentDebt (paidCaseN ar env s c a)) (numLit ar 0)
     \<and> status (paidCaseN ar env s c a) \<noteq> CLOSED
   \<longleftrightarrow> closesN ar c a"
  by (simp add: paidCaseN_def closesN_def)

lemma closedStateN_facts:
  assumes "cases s i = Some c"
  shows "cases (autoCloseN ar env i (paidStateN ar env s i p c a)) =
           (cases s)(i \<mapsto> (if closesN ar c a
                           then (paidCaseN ar env s c a)\<lparr>status := CLOSED,
                                  closedAt := Some (dateAt env (tick s + 4))\<rparr>
                           else paidCaseN ar env s c a))"
    and "map action (getCaseHistory j (autoCloseN ar env i (paidStateN ar env s i p c a))) =
          (if j = i
           then map action (getCaseHistory i s) @ [''PAYMENT_RECEIVED''] @
                (if closesN ar c a then [''CASE_CLOSED''] else [])
           else map action (getCaseHistory j s))"
proof -
  have c2: "cases (paidStateN ar env s i p c a) i = Some (paidCaseN ar env s c a)"
    by (simp add: paidStateN_facts(1) [OF assms])
  show "cases (autoCloseN ar env i (paidStateN ar env s i p c a)) =
           (cases s)(i \<mapsto> (if closesN ar c a
                           then (paidCaseN ar env s c a)\<lparr>status := CLOSED,
                                  closedAt := Some (dateAt env (tick s + 4))\<rparr>
                           else paidCaseN ar env s c a))"
    unfolding autoCloseN_Some [OF c2] closesN_paidCaseN
    by (simp add: paidStateN_facts(1,2) [OF assms])
  show "map action (getCaseHistory j (autoCloseN ar env i (paidStateN ar env s i p c a))) =
          (if j = i
           then map action (getCaseHistory i s) @ [''PAYMENT_RECEIVED''] @
                (if closesN ar c a then [''CASE_CLOSED''] else [])
           else map action (getCaseHistory j s))"
    unfolding autoCloseN_Some [OF c2] closesN_paidCaseN
    by (simp add: addHistoryEntry_history paidStateN_facts(3) [OF assms])
qed

lemma reopenedStateN_facts:
  assumes "cases s i = Some c"
  shows "cases (reopenN ar env i a (autoCloseN ar env i (paidStateN ar env s i p c a))) =
           (cases s)(i \<mapsto> settledCaseN ar env s c a)"
    and "map action (getCaseHistory j
           (reopenN ar env i a (autoCloseN ar env i (paidStateN ar env s i p c a)))) =
          (if j = i
           then map action (getCaseHistory i s) @ [''PAYMENT_RECEIVED''] @
                (if closesN ar c a then [''CASE_CLOSED'']
                 else if reopensN ar c a then [''CASE_REOPENED''] else [])
           else map action (getCaseHistory j s))"
proof -
  let ?s3 = "autoCloseN ar env i (paidStateN ar env s i p c a)"
  let ?c3 = "if closesN ar c a
             then (paidCaseN ar env s c a)\<lparr>status := CLOSED,
                    closedAt := Some (dateAt env (tick s + 4))\<rparr>
             else paidCaseN ar env s c a"
  have c3: "cases ?s3 i = Some ?c3"
    by (simp add: closedStateN_facts(1) [OF assms])
  have r: "status ?c3 = WRITTEN_OFF \<and> numGt ar a (numLit ar 0) \<longleftrightarrow> reopensN ar c a"
    by (simp add: reopensN_def paidCaseN_def)
  show "cases (reopenN ar env i a ?s3) = (cases s)(i \<mapsto> settledCaseN ar env s c a)"
    unfolding reopenN_Some [OF c3] r
    by (simp add: closedStateN_facts(1) [OF assms] settledCaseN_def reopensN_def)
  show "map action (getCaseHistory j (reopenN ar env i a ?s3)) =
          (if j = i
           then map action (getCaseHistory i s) @ [''PAYMENT_RECEIVED''] @
                (if closesN ar c a then [''CASE_CLOSED'']
                 else if reopensN ar c a then [''CASE_REOPENED''] else [])
           else map action (getCaseHistory j s))"
    unfolding reopenN_Some [OF c3] r
    by (simp add: addHistoryEntry_history closedStateN_facts(2) [OF assms] reopensN_def)
qed

lemma recordPaymentN_fresh:
  assumes "cases s i = Some c"
    and "idempotencyKey i p \<notin> set (processedPayments s)"
  shows "recordPaymentN ar env i p a s =
    (let s4 = reopenN ar env i a (autoCloseN ar env i (paidStateN ar env s i p c a))
     in (cases s4 i,
         s4\<lparr>processedPayments := cleanup (processedPayments s @ [idempotencyKey i p])\<rparr>))"
  using assms by (simp add: recordPaymentN_def paidStateN_def setHas_def setAdd_def Let_def)

lemma recordPaymentN_fresh_facts:
  assumes "cases s i = Some c"
    and "idempotencyKey i p \<notin> set (processedPayments s)"
  shows "fst (recordPaymentN ar env i p a s) = Some (settledCaseN ar env s c a)"
    and "cases (snd (recordPaymentN ar env i p a s)) = (cases s)(i \<mapsto> settledCaseN ar env s c a)"
    and "processedPayments (snd (recordPaymentN ar env i p a s))
           = cleanup (processedPayments s @ [idempotencyKey i p])"
    and "processedEventIds (snd (recordPaymentN ar env i p a s)) = processedEventIds s"
    and "map action (getCaseHistory j (snd (recordPaymentN ar env i p a s))) =
          (if j = i
           then map action (getCaseHistory i s) @ [''PAYMENT_RECEIVED''] @
                (if closesN ar c a then [''CASE_CLOSED'']
                 else if reopensN ar c a then [''CASE_REOPENED''] else [])
           else map action (getCaseHistory j s))"
  unfolding recordPaymentN_fresh [OF assms] Let_def
  by (simp_all add: reopenedStateN_facts [OF assms(1)])



text \<open>With exact arithmetic \<open>recordPaymentN\<close> is \<open>recordPayment\<close>.\<close>

lemma exactArith_sel [simp]:
  "numLit (exactArith f) q = q"
  "numAdd (exactArith f) a b = a + b"
  "numSub (exactArith f) a b = a - b"
  "numMax (exactArith f) a b = max a b"
  "numLe (exactArith f) a b \<longleftrightarrow> a \<le> b"
  "numGt (exactArith f) a b \<longleftrightarrow> b < a"
  "numEq (exactArith f) a b \<longleftrightarrow> a = b"
  "numToString (exactArith f) a = f a"
  by (simp_all add: exactArith_def)

lemma recordPaymentN_exact:
  "recordPaymentN (exactArith (numberToString env)) env i p a s = recordPayment env i p a s"
proof -
  have 1: "applyPaymentAmountN (exactArith (numberToString env)) env i a t
             = applyPaymentAmount env i a t" for t
    by (simp add: applyPaymentAmountN_def applyPaymentAmount_def)
  have 2: "autoCloseN (exactArith (numberToString env)) env i t = autoClose env i t" for t
    by (simp add: autoCloseN_def autoClose_def cong: option.case_cong if_cong)
  have 3: "reopenN (exactArith (numberToString env)) env i a t = reopen env i a t" for t
    by (simp add: reopenN_def reopen_def cong: option.case_cong if_cong)
  show ?thesis
    unfolding recordPaymentN_def recordPayment_def 1 2 3 exactArith_sel ..
qed

text \<open>Two examples of what the arithmetic parameter covers.\<close>

lemma roundedArith_sel [simp]:
  "numLit (roundedArith rnd f) q = Some (rnd q)"
  "numAdd (roundedArith rnd f) (Some x) (Some y) = Some (rnd (x + y))"
  "numAdd (roundedArith rnd f) a None = None"
  "numAdd (roundedArith rnd f) None b = None"
  "numSub (roundedArith rnd f) (Some x) (Some y) = Some (rnd (x - y))"
  "numSub (roundedArith rnd f) a None = None"
  "numSub (roundedArith rnd f) None b = None"
  "numMax (roundedArith rnd f) (Some x) (Some y) = Some (max x y)"
  "numMax (roundedArith rnd f) a None = None"
  "numLe (roundedArith rnd f) (Some x) (Some y) \<longleftrightarrow> x \<le> y"
  "numLe (roundedArith rnd f) None b \<longleftrightarrow> False"
  "numGt (roundedArith rnd f) (Some x) (Some y) \<longleftrightarrow> y < x"
  "numEq (roundedArith rnd f) None b \<longleftrightarrow> False"
  by (simp_all add: roundedArith_def split: option.splits)

text \<open>
  The payment of 16199.999999999998 on a written-off case that owes 18000 + 1200 and
  has paid 3000: when the sum of what is paid rounds to 19200, the case closes.
\<close>

lemma recordPaymentN_rounded_example:
  assumes "cases s i = Some c"
    and "idempotencyKey i p \<notin> set (processedPayments s)"
    and "status c = WRITTEN_OFF"
    and "originalDebt c = Some 18000" "interestAccrued c = Some 1200" "paidAmount c = Some 3000"
    and "rnd 0 = 0" "rnd (18000 + 1200) = 19200"
    and "rnd (3000 + 16199999999999998 / 1000000000000) = 19200"
  shows "map_option status
           (fst (recordPaymentN (roundedArith rnd f) env i p
                   (Some (16199999999999998 / 1000000000000)) s)) = Some CLOSED"
  using assms(3-)
  by (simp add: recordPaymentN_fresh_facts(1) [OF assms(1,2)] settledCaseN_def closesN_def
        newDebtN_def)

text \<open>A payment of \<open>NaN\<close> leaves \<open>paidAmount\<close> and \<open>currentDebt\<close> \<open>NaN\<close>, and the case not balanced.\<close>

lemma recordPaymentN_NaN_example:
  assumes "cases s i = Some c"
    and "idempotencyKey i p \<notin> set (processedPayments s)"
  shows "\<exists>c'. fst (recordPaymentN (roundedArith rnd f) env i p None s) = Some c'
           \<and> paidAmount c' = None \<and> currentDebt c' = None
           \<and> \<not> balanced (roundedArith rnd f) c'"
  by (simp add: recordPaymentN_fresh_facts(1) [OF assms(1,2)] settledCaseN_def paidCaseN_def
        newDebtN_def balanced_def)

subsection \<open>The idempotency ledger\<close>

lemma fold_setDelete: "fold setDelete ks xs = filter (\<lambda>x. x \<notin> set ks) xs"
  by (induction ks arbitrary: xs)
     (auto simp: setDelete_def removeAll_filter_not_eq intro: filter_cong)

lemma cleanup_keeps_last: "k \<notin> set L \<Longrightarrow> k \<in> set (cleanup (L @ [k]))"
  by (auto simp: cleanup_def fold_setDelete Let_def dest: in_set_takeD)

lemma filter_not_in_take:
  assumes "distinct xs"
  shows "filter (\<lambda>x. x \<notin> set (take n xs)) xs = drop n xs"
proof -
  have disj: "set (take n xs) \<inter> set (drop n xs) = {}"
    by (rule set_take_disj_set_drop_if_distinct [OF assms order_refl])
  have "filter (\<lambda>x. x \<notin> set (take n xs)) (take n xs) = []"
    by (simp add: filter_empty_conv)
  moreover have "filter (\<lambda>x. x \<notin> set (take n xs)) (drop n xs) = drop n xs"
    using disj by (auto simp add: filter_id_conv)
  ultimately have "filter (\<lambda>x. x \<notin> set (take n xs)) (take n xs @ drop n xs) = drop n xs"
    by (simp only: filter_append append_Nil)
  then show ?thesis by simp
qed

lemma cleanup_distinct:
  "distinct xs \<Longrightarrow> cleanup xs = (if length xs > 10000 then drop 5000 xs else xs)"
  by (simp add: cleanup_def fold_setDelete filter_not_in_take Let_def)

lemma recordPayment_returns_stored:
  "fst (recordPayment env caseId paymentId amount s)
     = cases (snd (recordPayment env caseId paymentId amount s)) caseId"
  by (simp add: recordPayment_def Let_def setHas_def split: option.splits)

lemma recordPayment_key_resident:
  assumes "cases s caseId = Some c"
  shows "idempotencyKey caseId paymentId
           \<in> set (processedPayments (snd (recordPayment env caseId paymentId amount s)))"
proof (cases "idempotencyKey caseId paymentId \<in> set (processedPayments s)")
  case True
  with assms show ?thesis by (simp add: recordPayment_duplicate)
next
  case False
  with assms show ?thesis
    by (simp add: recordPayment_fresh_facts(3) cleanup_keeps_last)
qed

lemma recordPayment_cases:
  "cases (snd (recordPayment env i p a s)) j =
     (if j = i then fst (recordPayment env i p a s) else cases s j)"
proof (cases "cases s i")
  case None
  then show ?thesis by (simp add: recordPayment_unknown)
next
  case (Some c)
  show ?thesis
  proof (cases "idempotencyKey i p \<in> set (processedPayments s)")
    case True
    then show ?thesis using Some by (simp add: recordPayment_duplicate)
  next
    case False
    then show ?thesis using Some
      by (simp add: recordPayment_fresh_facts(1,2))
  qed
qed

lemma recordPayment_keeps_case:
  assumes "cases s caseId = Some c"
  shows "cases (snd (recordPayment env caseId paymentId amount s)) caseId \<noteq> None"
  using assms
  by (cases "idempotencyKey caseId paymentId \<in> set (processedPayments s)")
     (simp_all add: recordPayment_duplicate recordPayment_fresh_facts(2))

lemma recordPayment_paidAmount_mono:
  assumes "0 \<le> a" and "cases s j = Some c"
  shows "\<exists>c'. cases (snd (recordPayment env i p a s)) j = Some c' \<and> paidAmount c \<le> paidAmount c'"
proof (cases "cases s i")
  case None
  then show ?thesis using assms by (simp add: recordPayment_unknown)
next
  case (Some d)
  show ?thesis
  proof (cases "idempotencyKey i p \<in> set (processedPayments s)")
    case True
    then show ?thesis using Some assms by (simp add: recordPayment_duplicate)
  next
    case False
    then show ?thesis using Some assms
      by (auto simp add: recordPayment_fresh_facts(2) settledCase_def paidCase_def)
  qed
qed

subsection \<open>Payments\<close>

text \<open>
  C1. A second \<open>recordPayment\<close> with the same caseId and paymentId (whatever its amount
  and whatever the clock shows) returns the case as it is stored and leaves the whole
  state as the first call left it: cases, histories, ledgers and the count of clock
  reads are unchanged. The stored case is also what the first call returned
  (\<open>recordPayment_returns_stored\<close>).
\<close>

theorem recordPayment_idempotent:
  "recordPayment env2 caseId paymentId amount2
      (snd (recordPayment env1 caseId paymentId amount1 s))
     = (cases (snd (recordPayment env1 caseId paymentId amount1 s)) caseId,
        snd (recordPayment env1 caseId paymentId amount1 s))"
proof (cases "cases s caseId")
  case None
  then show ?thesis by (simp add: recordPayment_unknown)
next
  case (Some c)
  let ?r = "recordPayment env1 caseId paymentId amount1 s"
  obtain c' where c': "cases (snd ?r) caseId = Some c'"
    using recordPayment_keeps_case [OF Some] by blast
  have key: "idempotencyKey caseId paymentId \<in> set (processedPayments (snd ?r))"
    by (rule recordPayment_key_resident [OF Some])
  show ?thesis
    using recordPayment_duplicate [OF c' key] c' by simp
qed

theorem recordPayment_idempotent_witness:
  "map_option paidAmount
     (fst (recordPayment env0 ''CASE-2024-002'' ''PAY-IDEM-001'' 1000
        (snd (recordPayment env0 ''CASE-2024-002'' ''PAY-IDEM-001'' 1000 initialState))))
     = Some 1000"
  using recordPayment_idempotent
          [of env0 "''CASE-2024-002''" "''PAY-IDEM-001''" 1000 env0 1000 initialState]
  by (simp add: recordPayment_fresh_facts(2) [OF initial_cases(2)] initial_rest
        settledCase_def paidCase_def case002_def)



text \<open>
  C4, as the code has it, over the numbers of any arithmetic. A payment of a positive
  amount is applied to a WRITTEN_OFF case. The balance is recomputed first, and the
  auto-close block is evaluated before the reopen block. When the recomputed balance is
  not \<open><= 0\<close>, the status becomes ACTIVE and the history gains PAYMENT_RECEIVED followed
  by CASE_REOPENED. When it is \<open><= 0\<close>, the case ends CLOSED. The condition is on the
  balance as the platform computes it: in doubles \<open>3000 + 16199.999999999998\<close> is
  \<open>19200\<close>, so such a payment against a debt of 19200 closes the case.
\<close>

theorem recordPayment_reopen:
  assumes "cases s caseId = Some c"
    and "idempotencyKey caseId paymentId \<notin> set (processedPayments s)"
    and "status c = WRITTEN_OFF"
    and "numGt ar amount (numLit ar 0)"
  shows "\<exists>c'. fst (recordPaymentN ar env caseId paymentId amount s) = Some c'
           \<and> cases (snd (recordPaymentN ar env caseId paymentId amount s)) caseId = Some c'
           \<and> currentDebt c' = newDebtN ar c amount
           \<and> (if numLe ar (currentDebt c') (numLit ar 0)
              then status c' = CLOSED
              else status c' = ACTIVE
                 \<and> map action
                       (getCaseHistory caseId
                          (snd (recordPaymentN ar env caseId paymentId amount s)))
                     = map action (getCaseHistory caseId s)
                         @ [''PAYMENT_RECEIVED'', ''CASE_REOPENED''])"
  using assms(3,4)
  by (simp add: recordPaymentN_fresh_facts [OF assms(1,2)] settledCaseN_def paidCaseN_def
        closesN_def reopensN_def)

theorem recordPayment_reopen_witness:
  "map_option status
     (fst (recordPaymentN arith0 env0 ''CASE-2024-005'' ''PAY-REOPEN-001'' 500 initialState))
     = Some ACTIVE
   \<and> map action
       (getCaseHistory ''CASE-2024-005''
          (snd (recordPaymentN arith0 env0 ''CASE-2024-005'' ''PAY-REOPEN-001'' 500
                  initialState)))
     = map action (getCaseHistory ''CASE-2024-005'' initialState)
         @ [''PAYMENT_RECEIVED'', ''CASE_REOPENED'']"
proof -
  have fresh: "idempotencyKey ''CASE-2024-005'' ''PAY-REOPEN-001''
                 \<notin> set (processedPayments initialState)"
    by (simp add: initial_rest)
  have wo: "status case005 = WRITTEN_OFF"
    by (simp add: case005_def)
  have pos: "numGt arith0 500 (numLit arith0 0)"
    by (simp add: arith0_def)
  have debt: "newDebtN arith0 case005 500 = 139500"
    by (simp add: newDebtN_def arith0_def case005_def)
  show ?thesis
    using recordPayment_reopen [OF initial_cases(5) fresh wo pos, of env0] debt
    by (auto simp add: arith0_def)
qed

text \<open>
  The claim C4 as written fails on the sample case CASE-2024-005 (WRITTEN_OFF, original
  debt 125000, interest 15000, nothing paid): a first payment of 140000, a positive
  amount, leaves it CLOSED, not ACTIVE.
\<close>

theorem recordPayment_reopen_counterexample:
  "cases initialState ''CASE-2024-005'' = Some case005
   \<and> status case005 = WRITTEN_OFF
   \<and> (140000::rat) > 0
   \<and> \<not> setHas (idempotencyKey ''CASE-2024-005'' ''PAY-FULL-005'')
          (processedPayments initialState)
   \<and> map_option status
        (fst (recordPayment env0 ''CASE-2024-005'' ''PAY-FULL-005'' 140000 initialState))
      = Some CLOSED"
proof -
  have fresh: "idempotencyKey ''CASE-2024-005'' ''PAY-FULL-005''
                 \<notin> set (processedPayments initialState)"
    by (simp add: initial_rest)
  show ?thesis
    using fresh
    by (simp add: recordPayment_fresh_facts(1) [OF initial_cases(5) fresh] initial_cases(5)
          setHas_def settledCase_def closes_def paidCase_def case005_def)
qed

text \<open>
  C5. For a caseId that is not in the case store, \<open>recordPayment\<close> returns \<open>null\<close> and
  the whole state (cases, histories, idempotency ledger, event ledger) is the one it
  was called in, for every paymentId and amount.
\<close>

theorem recordPayment_unknown_case:
  "cases s caseId = None \<Longrightarrow> recordPayment env caseId paymentId amount s = (None, s)"
  by (simp add: recordPayment_def)

theorem recordPayment_unknown_case_witness:
  "cases initialState ''CASE-FAKE'' = None \<and>
   recordPayment env0 ''CASE-FAKE'' ''PAY-TEST-001'' 1000 initialState = (None, initialState)"
proof -
  have none: "cases initialState ''CASE-FAKE'' = None"
    by (simp add: initialState_def sampleCases_def case001_def case002_def case003_def
          case004_def case005_def)
  show ?thesis
    using none recordPayment_unknown_case [OF none, of env0 "''PAY-TEST-001''" 1000]
    by simp
qed

text \<open>
  C9, as the code has it. \<open>recordPayment\<close> adds the amount it is given and does not look
  at its sign. Over any sequence of \<open>recordPayment\<close> calls whose amounts are all
  non-negative, every case stays in the store and its \<open>paidAmount\<close> never decreases.
\<close>

theorem paidAmount_monotone:
  assumes "\<forall>(i, p, a) \<in> set calls. 0 \<le> a" and "cases s j = Some c"
  shows "\<exists>c'. cases (recordPayments env calls s) j = Some c' \<and> paidAmount c \<le> paidAmount c'"
  using assms
proof (induction calls arbitrary: s c)
  case Nil
  then show ?case by simp
next
  case (Cons call calls)
  obtain i p a where call: "call = (i, p, a)" by (cases call) auto
  with Cons.prems have a: "0 \<le> a" by simp
  obtain c1 where c1: "cases (snd (recordPayment env i p a s)) j = Some c1"
    and le1: "paidAmount c \<le> paidAmount c1"
    using recordPayment_paidAmount_mono [OF a Cons.prems(2)] by blast
  obtain c' where "cases (recordPayments env calls (snd (recordPayment env i p a s))) j = Some c'"
    and "paidAmount c1 \<le> paidAmount c'"
    using Cons.IH [OF _ c1] Cons.prems(1) by auto
  then show ?case using le1 call by auto
qed

theorem paidAmount_monotone_witness:
  "\<exists>c'. cases (recordPayments env0
            [(''CASE-2024-001'', ''PAY-1'', 1500), (''CASE-2024-001'', ''PAY-2'', 0)]
            initialState) ''CASE-2024-001'' = Some c'
        \<and> 3000 \<le> paidAmount c'"
proof -
  have nonneg: "\<forall>(i, p, a) \<in> set [(''CASE-2024-001'', ''PAY-1'', 1500::rat),
                                   (''CASE-2024-001'', ''PAY-2'', 0)]. 0 \<le> a"
    by simp
  show ?thesis
    using paidAmount_monotone [OF nonneg initial_cases(1), of env0]
    by (simp add: case001_def)
qed

text \<open>
  The claim C9 as written fails for a negative amount: on the sample case
  CASE-2024-001 (paidAmount 3000) a call with amount -100 leaves paidAmount 2900.
\<close>

theorem paidAmount_monotone_counterexample:
  "map_option paidAmount (cases initialState ''CASE-2024-001'') = Some 3000
   \<and> map_option paidAmount
        (cases (recordPayments env0 [(''CASE-2024-001'', ''PAY-NEG-001'', - 100)] initialState)
           ''CASE-2024-001'')
      = Some 2900"
proof -
  have fresh: "idempotencyKey ''CASE-2024-001'' ''PAY-NEG-001''
                 \<notin> set (processedPayments initialState)"
    by (simp add: initial_rest)
  show ?thesis
    by (simp add: recordPayment_fresh_facts(2) [OF initial_cases(1) fresh] initial_cases(1)
          settledCase_def paidCase_def case001_def)
qed

subsection \<open>The status endpoint\<close>

text \<open>
  C10. For every existing case \<open>getCaseStatus\<close> answers with the status of the case, and
  \<open>canAcceptPayments\<close> is false exactly for LEGAL_ACTION. For a CLOSED case it is true
  and there is no reason; the reason text of the CLOSED branch is never returned.
\<close>

theorem getCaseStatus_canAcceptPayments:
  assumes "cases s i = Some c"
  shows "\<exists>r. getCaseStatus i s = Some r
           \<and> respStatus r = status c
           \<and> (respCanAcceptPayments r = False \<longleftrightarrow> status c = LEGAL_ACTION)
           \<and> (status c = CLOSED \<longrightarrow> respCanAcceptPayments r = True \<and> respReason r = None)
           \<and> respReason r \<noteq> Some ''Case is closed. Payment may trigger review.''"
  using assms by (simp add: getCaseStatus_def canAcceptPayments_def Let_def)

theorem getCaseStatus_canAcceptPayments_witness:
  "map_option respCanAcceptPayments (getCaseStatus ''CASE-2024-004'' initialState) = Some True
   \<and> map_option respReason (getCaseStatus ''CASE-2024-004'' initialState) = Some None
   \<and> map_option respCanAcceptPayments (getCaseStatus ''CASE-2024-003'' initialState) = Some False"
  using getCaseStatus_canAcceptPayments [OF initial_cases(4)]
    getCaseStatus_canAcceptPayments [OF initial_cases(3)]
  by (auto simp add: case004_def case003_def)

subsection \<open>The balance equation\<close>



lemma paymentRecorded_upd [simp]:
  "paymentRecorded j (s\<lparr>cases := x\<rparr>) = paymentRecorded j s"
  "paymentRecorded j (s\<lparr>tick := n\<rparr>) = paymentRecorded j s"
  "paymentRecorded j (s\<lparr>processedPayments := l\<rparr>) = paymentRecorded j s"
  "paymentRecorded j (modifyCase i f s) = paymentRecorded j s"
  by (simp_all add: paymentRecorded_def getCaseHistory_def)

lemma allAccounted_tick [simp]:
  "allAccounted ar (s\<lparr>tick := n\<rparr>) = allAccounted ar s"
  by (simp add: allAccounted_def accounted_def)










lemma caseOfLit_sel [simp]:
  "idC (caseOfLit ar c) = idC c"
  "status (caseOfLit ar c) = status c"
  "originalDebt (caseOfLit ar c) = numLit ar (originalDebt c)"
  "interestAccrued (caseOfLit ar c) = numLit ar (interestAccrued c)"
  "paidAmount (caseOfLit ar c) = numLit ar (paidAmount c)"
  "currentDebt (caseOfLit ar c) = numLit ar (currentDebt c)"
  by (simp_all add: caseOfLit_def)











subsection \<open>Eviction from the idempotency ledger\<close>


lemma recordPayment_suppressed:
  assumes "idempotencyKey i p \<in> set (processedPayments s)"
  shows "recordPayment env i p a s = (cases s i, s)"
  using assms by (cases "cases s i") (simp_all add: recordPayment_unknown recordPayment_duplicate)

lemma distinct_ledger_recordPayment:
  assumes "distinct (processedPayments s)"
  shows "distinct (processedPayments (snd (recordPayment env i p a s)))"
proof (cases "cases s i")
  case None
  then show ?thesis using assms by (simp add: recordPayment_unknown)
next
  case (Some c)
  show ?thesis
  proof (cases "idempotencyKey i p \<in> set (processedPayments s)")
    case True
    then show ?thesis using Some assms by (simp add: recordPayment_duplicate)
  next
    case False
    then have d: "distinct (processedPayments s @ [idempotencyKey i p])"
      using assms by simp
    then have "distinct (cleanup (processedPayments s @ [idempotencyKey i p]))"
      by (metis cleanup_distinct distinct_drop)
    then show ?thesis
      by (simp only: recordPayment_fresh_facts(3) [OF Some False])
  qed
qed

text \<open>
  C8. The ledger is a JavaScript \<open>Set\<close>, which iterates in insertion order; here it is
  the list of its members, oldest first, without repetition (\<open>recordPayment\<close> keeps it
  so, \<open>distinct_ledger_recordPayment\<close>). When a payment is applied while the ledger holds
  10000 keys or more, so that the insertion makes its size exceed 10000, the new ledger
  is the old one with the new key appended and its first 5000 keys dropped: exactly the
  5000 oldest keys leave, and none of them stays. For every key that stays, a
  \<open>recordPayment\<close> whose caseId and paymentId give that key changes nothing and returns
  the stored case.
\<close>

theorem ledger_eviction:
  assumes "cases s i = Some c"
    and "idempotencyKey i p \<notin> set (processedPayments s)"
    and "distinct (processedPayments s)"
    and "length (processedPayments s) \<ge> 10000"
  shows "processedPayments (snd (recordPayment env i p a s))
           = drop 5000 (processedPayments s @ [idempotencyKey i p])
         \<and> set (take 5000 (processedPayments s))
             \<inter> set (processedPayments (snd (recordPayment env i p a s))) = {}
         \<and> (\<forall>k \<in> set (processedPayments (snd (recordPayment env i p a s))).
               \<forall>i' p' env' a'. idempotencyKey i' p' = k \<longrightarrow>
                 recordPayment env' i' p' a' (snd (recordPayment env i p a s))
                   = (cases (snd (recordPayment env i p a s)) i',
                      snd (recordPayment env i p a s)))"
proof -
  let ?L = "processedPayments s @ [idempotencyKey i p]"
  let ?s' = "snd (recordPayment env i p a s)"
  have d: "distinct ?L" using assms(2,3) by simp
  have ledger: "processedPayments ?s' = drop 5000 ?L"
    using assms(4) by (simp add: recordPayment_fresh_facts(3) [OF assms(1,2)] cleanup_distinct [OF d])
  have "take 5000 ?L = take 5000 (processedPayments s)"
    using assms(4) by simp
  then have disj: "set (take 5000 (processedPayments s)) \<inter> set (processedPayments ?s') = {}"
    using set_take_disj_set_drop_if_distinct [OF d order_refl, of 5000] ledger by simp
  have sup: "\<forall>k \<in> set (processedPayments ?s').
               \<forall>i' p' env' a'. idempotencyKey i' p' = k \<longrightarrow>
                 recordPayment env' i' p' a' ?s' = (cases ?s' i', ?s')"
    by (auto simp: recordPayment_suppressed)
  show ?thesis using ledger disj sup by blast
qed

lemma inj_fullKey: "inj (\<lambda>n. idempotencyKey ''CASE-2024-001'' (replicate n (CHR ''p'')))"
proof (rule injI)
  fix m n :: nat
  assume "idempotencyKey ''CASE-2024-001'' (replicate m (CHR ''p''))
            = idempotencyKey ''CASE-2024-001'' (replicate n (CHR ''p''))"
  then have "replicate m (CHR ''p'') = replicate n (CHR ''p'')"
    by (simp add: idempotencyKey_def)
  then have "length (replicate m (CHR ''p'')) = length (replicate n (CHR ''p''))"
    by (rule arg_cong)
  then show "m = n" by simp
qed

lemma fullLedger_facts:
  "distinct fullLedger" "length fullLedger = 10000"
  "idempotencyKey ''CASE-2024-001'' ''PAY-NEW'' \<notin> set fullLedger"
proof -
  show "distinct fullLedger"
    unfolding fullLedger_def by (simp add: distinct_map inj_on_subset [OF inj_fullKey])
  show "length fullLedger = 10000"
    unfolding fullLedger_def by simp
  show "idempotencyKey ''CASE-2024-001'' ''PAY-NEW'' \<notin> set fullLedger"
  proof
    assume "idempotencyKey ''CASE-2024-001'' ''PAY-NEW'' \<in> set fullLedger"
    then obtain n where "''PAY-NEW'' = replicate n (CHR ''p'')"
      by (auto simp: fullLedger_def idempotencyKey_def)
    then have "set ''PAY-NEW'' \<subseteq> {CHR ''p''}"
      by (metis set_replicate_conv_if empty_subsetI subset_refl)
    then show False by simp
  qed
qed

lemma fullState_facts:
  "cases fullState ''CASE-2024-001'' = Some case001"
  "processedPayments fullState = fullLedger"
  by (simp_all add: fullState_def initial_cases)

theorem ledger_eviction_witness:
  "length (processedPayments
     (snd (recordPayment env0 ''CASE-2024-001'' ''PAY-NEW'' 1500 fullState))) = 5001
   \<and> recordPayment env0 ''CASE-2024-001'' ''PAY-NEW'' 1500
        (snd (recordPayment env0 ''CASE-2024-001'' ''PAY-NEW'' 1500 fullState))
      = (cases (snd (recordPayment env0 ''CASE-2024-001'' ''PAY-NEW'' 1500 fullState))
           ''CASE-2024-001'',
         snd (recordPayment env0 ''CASE-2024-001'' ''PAY-NEW'' 1500 fullState))"
proof -
  let ?s' = "snd (recordPayment env0 ''CASE-2024-001'' ''PAY-NEW'' 1500 fullState)"
  have fresh: "idempotencyKey ''CASE-2024-001'' ''PAY-NEW'' \<notin> set (processedPayments fullState)"
    by (simp add: fullState_facts fullLedger_facts)
  have dist: "distinct (processedPayments fullState)"
    by (simp add: fullState_facts fullLedger_facts)
  have len: "length (processedPayments fullState) \<ge> 10000"
    by (simp add: fullState_facts fullLedger_facts)
  note ev = ledger_eviction [OF fullState_facts(1) fresh dist len, where env = env0 and a = 1500]
  have l: "processedPayments ?s' = drop 5000 (fullLedger @ [idempotencyKey ''CASE-2024-001'' ''PAY-NEW''])"
    using ev by (simp add: fullState_facts)
  have "length (processedPayments ?s') = 5001"
    unfolding l by (simp add: fullLedger_facts)
  moreover have "idempotencyKey ''CASE-2024-001'' ''PAY-NEW'' \<in> set (processedPayments ?s')"
    unfolding l by (simp add: fullLedger_facts)
  ultimately show ?thesis using ev by blast
qed

subsection \<open>The consumer\<close>

lemma publish_facts:
  "cases (snd (publish env k ev s)) = cases s"
  "caseHistory (snd (publish env k ev s)) = caseHistory s"
  "processedPayments (snd (publish env k ev s)) = processedPayments s"
  "processedEventIds (snd (publish env k ev s)) = processedEventIds s"
  "fst (publish env k ev s) = [if publishThrows env (tick s) then PublishFailed k else Published k ev]"
  by (simp_all add: publish_def)

lemma publishBalanceUpdated_facts:
  "cases (snd (publishBalanceUpdated env pl s)) = cases s"
  "caseHistory (snd (publishBalanceUpdated env pl s)) = caseHistory s"
  "processedPayments (snd (publishBalanceUpdated env pl s)) = processedPayments s"
  "processedEventIds (snd (publishBalanceUpdated env pl s)) = processedEventIds s"
  "\<exists>e. fst (publishBalanceUpdated env pl s) = [e] \<and> isPublishAttempt e
        \<and> routingKeyOf e = Some ''case.balance.updated''"
  by (simp_all add: publishBalanceUpdated_def publish_facts Let_def)

lemma handlePaymentCompleted_unknown:
  "cases s (payCaseId (inPayload event)) = None \<Longrightarrow>
   handlePaymentCompleted env event s
     = (Inl (''Case not found: '' @ payCaseId (inPayload event)), s)"
  by (simp add: handlePaymentCompleted_def getCaseById_def Let_def)

lemma handlePaymentCompleted_known:
  assumes "cases s (payCaseId (inPayload event)) = Some c"
  shows "\<exists>e s2. handlePaymentCompleted env event s
            = (Inr [Reconciled (payCaseId (inPayload event)) (payId (inPayload event))
                      (payAmount (inPayload event)), e], s2)
          \<and> isPublishAttempt e
          \<and> routingKeyOf e = Some ''case.balance.updated''
          \<and> cases s2 = cases (snd (recordPayment env (payCaseId (inPayload event))
                                     (payId (inPayload event)) (payAmount (inPayload event)) s))
          \<and> caseHistory s2 = caseHistory (snd (recordPayment env (payCaseId (inPayload event))
                                     (payId (inPayload event)) (payAmount (inPayload event)) s))
          \<and> processedPayments s2 = processedPayments (snd (recordPayment env (payCaseId (inPayload event))
                                     (payId (inPayload event)) (payAmount (inPayload event)) s))
          \<and> processedEventIds s2 = processedEventIds s"
proof -
  let ?cid = "payCaseId (inPayload event)"
  let ?r = "recordPayment env ?cid (payId (inPayload event)) (payAmount (inPayload event)) s"
  obtain u where u: "fst ?r = Some u" "cases (snd ?r) ?cid = Some u"
    using recordPayment_keeps_case [OF assms] recordPayment_returns_stored by (metis not_Some_eq)
  have pe: "processedEventIds (snd ?r) = processedEventIds s"
    using assms
    by (cases "idempotencyKey ?cid (payId (inPayload event)) \<in> set (processedPayments s)")
       (simp_all add: recordPayment_duplicate recordPayment_fresh_facts(4))
  let ?pl = "\<lparr>buCaseId = ?cid, previousBalance = currentDebt c,
              newBalance = currentDebt u, buPaymentId = payId (inPayload event),
              paymentAmount = payAmount (inPayload event),
              buCurrency = payCurrency (inPayload event), caseStatus = status u\<rparr>"
  obtain e where e: "fst (publishBalanceUpdated env ?pl (snd ?r)) = [e]" "isPublishAttempt e"
      "routingKeyOf e = Some ''case.balance.updated''"
    using publishBalanceUpdated_facts(5) by blast
  have "handlePaymentCompleted env event s
          = (Inr [Reconciled ?cid (payId (inPayload event)) (payAmount (inPayload event)), e],
             snd (publishBalanceUpdated env ?pl (snd ?r)))"
    using assms u e(1)
    by (simp add: handlePaymentCompleted_def getCaseById_def Let_def split_beta
          publishBalanceUpdated_facts(1))
  then show ?thesis
    using e(2,3) pe by (simp add: publishBalanceUpdated_facts)
qed

lemma onMessage_known:
  assumes "content msg = Parsed event"
    and "inEventId event \<notin> set (processedEventIds s)"
    and "cases s (payCaseId (inPayload event)) = Some c"
  shows "\<exists>e. fst (onMessage env (Some msg) s)
            = [Reconciled (payCaseId (inPayload event)) (payId (inPayload event))
                 (payAmount (inPayload event)), e, Ack]
          \<and> isPublishAttempt e
          \<and> routingKeyOf e = Some ''case.balance.updated''
          \<and> cases (snd (onMessage env (Some msg) s))
              = cases (snd (recordPayment env (payCaseId (inPayload event))
                              (payId (inPayload event)) (payAmount (inPayload event)) s))
          \<and> caseHistory (snd (onMessage env (Some msg) s))
              = caseHistory (snd (recordPayment env (payCaseId (inPayload event))
                              (payId (inPayload event)) (payAmount (inPayload event)) s))
          \<and> processedPayments (snd (onMessage env (Some msg) s))
              = processedPayments (snd (recordPayment env (payCaseId (inPayload event))
                              (payId (inPayload event)) (payAmount (inPayload event)) s))"
proof -
  obtain e s2 where h: "handlePaymentCompleted env event s
            = (Inr [Reconciled (payCaseId (inPayload event)) (payId (inPayload event))
                      (payAmount (inPayload event)), e], s2)"
      and e: "isPublishAttempt e" "routingKeyOf e = Some ''case.balance.updated''"
      and st: "cases s2 = cases (snd (recordPayment env (payCaseId (inPayload event))
                                     (payId (inPayload event)) (payAmount (inPayload event)) s))"
          "caseHistory s2 = caseHistory (snd (recordPayment env (payCaseId (inPayload event))
                                     (payId (inPayload event)) (payAmount (inPayload event)) s))"
          "processedPayments s2 = processedPayments (snd (recordPayment env
                                     (payCaseId (inPayload event))
                                     (payId (inPayload event)) (payAmount (inPayload event)) s))"
    using handlePaymentCompleted_known [OF assms(3), of env] by blast
  have "fst (onMessage env (Some msg) s)
          = [Reconciled (payCaseId (inPayload event)) (payId (inPayload event))
                (payAmount (inPayload event)), e, Ack]"
    using assms(1,2) h by (simp add: onMessage_def setHas_def Let_def)
  moreover have "cases (snd (onMessage env (Some msg) s)) = cases s2"
    "caseHistory (snd (onMessage env (Some msg) s)) = caseHistory s2"
    "processedPayments (snd (onMessage env (Some msg) s)) = processedPayments s2"
    using assms(1,2) h by (simp_all add: onMessage_def setHas_def Let_def)
  ultimately show ?thesis
    using e st by simp
qed

text \<open>
  For every message whose processing throws and whose content is not of the kind
  \<open>NoPayload\<close>, the callback answers with one negative acknowledgement, which requeues
  exactly when the death count is below 3.
\<close>

lemma retry_threshold:
  assumes "content msg \<noteq> NoPayload" and "processingThrows env msg s"
  shows "fst (onMessage env (Some msg) s) = [Nack (getDeathCount msg < 3)]"
  using assms
  by (cases "content msg")
     (auto simp: onMessage_def processingThrows_def retryOrDeadLetter_def Let_def
           split: prod.splits sum.splits)

text \<open>
  C6, at the input where the code departs from it. A message whose content parses to a
  value without a payload, such as the text \<open>{}\<close>, makes the \<open>try\<close> block throw, and the
  \<open>catch\<close> block throws again in its log line, before it reads the death count: the
  callback ends with a rejected promise and sends neither \<open>nack\<close>. With a death count
  of 1 the claim asks for a requeue.
\<close>

theorem onMessage_payload_missing:
  "processingThrows env0 \<lparr>content = NoPayload, xDeath = Some [Some 1]\<rparr> initialState
   \<and> getDeathCount \<lparr>content = NoPayload, xDeath = Some [Some 1]\<rparr> = 1
   \<and> onMessage env0 (Some \<lparr>content = NoPayload, xDeath = Some [Some 1]\<rparr>) initialState
       = ([Rejected], initialState)"
  by (simp add: processingThrows_def getDeathCount_def onMessage_def)

text \<open>
  C7, as the code has it. For a payment message that is processed (its content has a
  payload, its event id is new, its case exists) the effects are, in this order: the
  reconciliation, then the publish attempts, the first of them for
  \<open>case.balance.updated\<close>, then the acknowledgement. Each publish attempt either goes
  through or fails and is logged; in both cases the message is acknowledged, nothing is
  negatively acknowledged, and cases, histories and payment ledger are as
  \<open>recordPayment\<close> left them.
\<close>

theorem onMessage_success_order:
  assumes "content msg = Parsed event"
    and "inEventId event \<notin> set (processedEventIds s)"
    and "cases s (payCaseId (inPayload event)) = Some c"
  shows "\<exists>pubs. fst (onMessage env (Some msg) s)
            = Reconciled (payCaseId (inPayload event)) (payId (inPayload event))
                (payAmount (inPayload event)) # pubs @ [Ack]
          \<and> pubs \<noteq> []
          \<and> list_all isPublishAttempt pubs
          \<and> routingKeyOf (hd pubs) = Some ''case.balance.updated''
          \<and> cases (snd (onMessage env (Some msg) s))
              = cases (snd (recordPayment env (payCaseId (inPayload event))
                              (payId (inPayload event)) (payAmount (inPayload event)) s))
          \<and> caseHistory (snd (onMessage env (Some msg) s))
              = caseHistory (snd (recordPayment env (payCaseId (inPayload event))
                              (payId (inPayload event)) (payAmount (inPayload event)) s))
          \<and> processedPayments (snd (onMessage env (Some msg) s))
              = processedPayments (snd (recordPayment env (payCaseId (inPayload event))
                              (payId (inPayload event)) (payAmount (inPayload event)) s))"
proof -
  obtain e where "fst (onMessage env (Some msg) s)
            = [Reconciled (payCaseId (inPayload event)) (payId (inPayload event))
                 (payAmount (inPayload event)), e, Ack]"
    and "isPublishAttempt e" and "routingKeyOf e = Some ''case.balance.updated''"
    and "cases (snd (onMessage env (Some msg) s))
              = cases (snd (recordPayment env (payCaseId (inPayload event))
                              (payId (inPayload event)) (payAmount (inPayload event)) s))"
    and "caseHistory (snd (onMessage env (Some msg) s))
              = caseHistory (snd (recordPayment env (payCaseId (inPayload event))
                              (payId (inPayload event)) (payAmount (inPayload event)) s))"
    and "processedPayments (snd (onMessage env (Some msg) s))
              = processedPayments (snd (recordPayment env (payCaseId (inPayload event))
                              (payId (inPayload event)) (payAmount (inPayload event)) s))"
    using onMessage_known [OF assms, of env] by blast
  then show ?thesis
    by (intro exI [of _ "[e]"]) simp
qed

lemma sampleEvent_facts:
  "cases initialState (payCaseId (inPayload sampleEvent)) = Some case001"
  "inEventId sampleEvent \<notin> set (processedEventIds initialState)"
  "payCaseId (inPayload sampleEvent) = ''CASE-2024-001''"
  "payId (inPayload sampleEvent) = ''PAY-EVT-001''"
  "payAmount (inPayload sampleEvent) = 1500"
  by (simp_all add: sampleEvent_def initial_cases initial_rest)

theorem onMessage_success_order_witness:
  "last (fst (onMessage (env0\<lparr>publishThrows := (\<lambda>n. True)\<rparr>)
            (Some \<lparr>content = Parsed sampleEvent, xDeath = None\<rparr>) initialState)) = Ack
   \<and> Nack True \<notin> set (fst (onMessage (env0\<lparr>publishThrows := (\<lambda>n. True)\<rparr>)
            (Some \<lparr>content = Parsed sampleEvent, xDeath = None\<rparr>) initialState))
   \<and> map_option paidAmount
       (cases (snd (onMessage (env0\<lparr>publishThrows := (\<lambda>n. True)\<rparr>)
            (Some \<lparr>content = Parsed sampleEvent, xDeath = None\<rparr>) initialState))
          ''CASE-2024-001'') = Some 4500"
proof -
  let ?env = "env0\<lparr>publishThrows := (\<lambda>n. True)\<rparr>"
  let ?msg = "\<lparr>content = Parsed sampleEvent, xDeath = None\<rparr>"
  have parsed: "content ?msg = Parsed sampleEvent"
    by simp
  have fresh: "idempotencyKey ''CASE-2024-001'' ''PAY-EVT-001''
                 \<notin> set (processedPayments initialState)"
    by (simp add: initial_rest)
  have paid: "map_option paidAmount
                (cases (snd (recordPayment ?env ''CASE-2024-001'' ''PAY-EVT-001'' 1500
                   initialState)) ''CASE-2024-001'') = Some 4500"
    by (simp add: recordPayment_fresh_facts(2) [OF initial_cases(1) fresh]
          settledCase_def paidCase_def case001_def)
  obtain pubs where effs: "fst (onMessage ?env (Some ?msg) initialState)
            = Reconciled ''CASE-2024-001'' ''PAY-EVT-001'' 1500 # pubs @ [Ack]"
    and pubs: "list_all isPublishAttempt pubs"
    and st: "cases (snd (onMessage ?env (Some ?msg) initialState))
              = cases (snd (recordPayment ?env ''CASE-2024-001'' ''PAY-EVT-001'' 1500
                   initialState))"
    using onMessage_success_order
            [OF parsed sampleEvent_facts(2) sampleEvent_facts(1), of ?env]
    by (auto simp: sampleEvent_facts(3,4,5))
  have "Nack True \<notin> set pubs"
    using pubs by (auto simp: list_all_iff)
  then show ?thesis
    using effs st paid by simp
qed

text \<open>
  The claim C7 as written puts the acknowledgement before the publication. On the
  sample payment message the balance event is published before the message is
  acknowledged.
\<close>

theorem onMessage_ack_order_counterexample:
  "\<not> publishedAfterAck
       (fst (onMessage env0 (Some \<lparr>content = Parsed sampleEvent, xDeath = None\<rparr>)
          initialState))"
proof -
  let ?msg = "\<lparr>content = Parsed sampleEvent, xDeath = None\<rparr>"
  have parsed: "content ?msg = Parsed sampleEvent"
    by simp
  obtain e where effs: "fst (onMessage env0 (Some ?msg) initialState)
            = [Reconciled ''CASE-2024-001'' ''PAY-EVT-001'' 1500, e, Ack]"
    and e: "isPublishAttempt e"
    using onMessage_known [OF parsed sampleEvent_facts(2) sampleEvent_facts(1), of env0]
    by (auto simp: sampleEvent_facts(3,4,5))
  have "e \<noteq> Ack"
    using e by auto
  then show ?thesis
    using e by (simp add: effs publishedAfterAck_def)
qed

end
